theory Spec2Isabelle
  imports Main "HOL-Library.Word"
begin

section \<open>JavaScript values used by the secret-manager layer\<close>

text \<open>
  A JavaScript string is a sequence of UTF-16 code units, a Buffer a sequence of bytes.
  String literals of the source are ASCII; \<open>ascii\<close> turns an Isabelle literal into the
  code units of the same JavaScript literal.
\<close>

type_synonym byte = "8 word"
type_synonym code_unit = "16 word"
type_synonym jsstring = "code_unit list"

definition ascii :: "string \<Rightarrow> jsstring" where
  "ascii s = map (\<lambda>c. of_nat (of_char c)) s"

subsection \<open>Numbers and \<open>Number.prototype.toString\<close>\<close>

text \<open>
  The version argument has the TypeScript type \<open>number\<close>, an IEEE double. Its string
  form is defined by ECMAScript's \<open>Number::toString\<close> from three integers the number
  determines: for a finite non-zero \<open>x\<close> of magnitude \<open>m\<close>, the digits \<open>s\<close>, their
  count \<open>k\<close> and the exponent \<open>n\<close> with \<open>10^(k-1) \<le> s < 10^k\<close>, with \<open>s * 10^(n-k)\<close>
  reading back as \<open>m\<close>, and with \<open>k\<close> as small as possible (so \<open>s\<close> has no trailing
  zero and at most 17 digits). A number is modelled by what \<open>toString\<close> takes of it:
  \<open>NaN\<close>, the two infinities, zero of either sign, or \<open>Finite negative s n\<close> with the
  sign, the digits \<open>s\<close> and the exponent \<open>n\<close>. So \<open>12\<close> is \<open>Finite False 12 2\<close>, \<open>-1200\<close>
  is \<open>Finite True 12 4\<close>, \<open>1.5\<close> is \<open>Finite False 15 1\<close>, \<open>2^64\<close> is
  \<open>Finite False 18446744073709552 20\<close> and \<open>10^21\<close> is \<open>Finite False 1 22\<close>. Every double
  is one of these terms; a term whose digits are not the shortest ones of any double
  stands for no number, and what is proved of all terms holds of the numbers among them.
\<close>

datatype number = NaN | Infinity | NegInfinity | Zero | Finite bool nat int

definition digit :: "nat \<Rightarrow> code_unit" where
  "digit d = of_nat (48 + d)"

fun nat_digits :: "nat \<Rightarrow> jsstring" where
  "nat_digits n =
     (if n < 10 then [digit n] else nat_digits (n div 10) @ [digit (n mod 10)])"

declare nat_digits.simps [simp del]

text \<open>
  The steps of \<open>Number::toString\<close> in radix 10 for a positive finite number, in the
  order of the standard: an integer below \<open>10^21\<close> in plain digits; a fraction with the
  point inside the digits; a fraction down to \<open>10^-6\<close> with leading zeros; otherwise the
  exponent form, with one digit or with a point after the first digit.
\<close>

definition positive_toString :: "nat \<Rightarrow> int \<Rightarrow> jsstring" where
  "positive_toString s n =
     (let digits = nat_digits s; k = int (length digits)
      in if k \<le> n \<and> n \<le> 21 then digits @ replicate (nat (n - k)) (digit 0)
         else if 0 < n \<and> n \<le> 21 then
           take (nat n) digits @ ascii ''.'' @ drop (nat n) digits
         else if - 6 < n \<and> n \<le> 0 then
           ascii ''0.'' @ replicate (nat (- n)) (digit 0) @ digits
         else if k = 1 then
           digits @ ascii ''e'' @ (if n < 0 then ascii ''-'' else ascii ''+'')
             @ nat_digits (nat \<bar>n - 1\<bar>)
         else
           take 1 digits @ ascii ''.'' @ drop 1 digits @ ascii ''e''
             @ (if n < 0 then ascii ''-'' else ascii ''+'') @ nat_digits (nat \<bar>n - 1\<bar>))"

fun Number_toString :: "number \<Rightarrow> jsstring" where
  "Number_toString NaN = ascii ''NaN''"
| "Number_toString Infinity = ascii ''Infinity''"
| "Number_toString NegInfinity = ascii ''-Infinity''"
| "Number_toString Zero = ascii ''0''"
| "Number_toString (Finite negative s n) =
     (if negative then ascii ''-'' @ positive_toString s n else positive_toString s n)"

text \<open>
  The value of a number that is an integer, and \<open>Number.isSafeInteger\<close>: an integer of
  magnitude at most \<open>2^53 - 1\<close>.
\<close>

fun integral_value :: "number \<Rightarrow> int option" where
  "integral_value Zero = Some 0"
| "integral_value (Finite negative s n) =
     (let k = int (length (nat_digits s))
      in if k \<le> n then Some ((if negative then - 1 else 1) * int s * 10 ^ nat (n - k))
         else None)"
| "integral_value v = None"

definition Number_isSafeInteger :: "number \<Rightarrow> bool" where
  "Number_isSafeInteger v =
     (case integral_value v of None \<Rightarrow> False | Some i \<Rightarrow> \<bar>i\<bar> \<le> 2 ^ 53 - 1)"

text \<open>
  \<open>Integer i\<close> is the number whose value is the safe integer \<open>i\<close>: every safe integer
  is a double, and its shortest digits are its own decimal digits without the trailing
  zeros. Beyond the safe integers the term need not be a number (\<open>2^64\<close> is written
  with \<open>Finite\<close>, as above), and \<open>Integer\<close> is used under \<open>Number_isSafeInteger\<close> only.
  \<open>decimal i\<close> is the decimal notation of the integer \<open>i\<close>.
\<close>

fun strip_zeros :: "nat \<Rightarrow> nat" where
  "strip_zeros m = (if m = 0 \<or> m mod 10 \<noteq> 0 then m else strip_zeros (m div 10))"

declare strip_zeros.simps [simp del]

definition Integer :: "int \<Rightarrow> number" where
  "Integer i =
     (if i = 0 then Zero
      else Finite (i < 0) (strip_zeros (nat \<bar>i\<bar>)) (int (length (nat_digits (nat \<bar>i\<bar>)))))"

definition decimal :: "int \<Rightarrow> jsstring" where
  "decimal i =
     (if i < 0 then ascii ''-'' @ nat_digits (nat (- i)) else nat_digits (nat i))"

text \<open>
  \<open>x?.toString() || d\<close> on an optional number: \<open>undefined\<close> is falsy, and so is the
  empty string; every other string is truthy.
\<close>

definition toString_or :: "number option \<Rightarrow> jsstring \<Rightarrow> jsstring" where
  "toString_or x d =
     (case x of
        None \<Rightarrow> d
      | Some v \<Rightarrow> (if Number_toString v = [] then d else Number_toString v))"

subsection \<open>UTF-8: \<open>Buffer.from(s, 'utf8')\<close> and \<open>Buffer.prototype.toString()\<close>\<close>

text \<open>
  Encoding reads the string as code points: a high surrogate followed by a low surrogate
  is one supplementary code point, any other surrogate is replaced by U+FFFD.
\<close>

definition is_high :: "code_unit \<Rightarrow> bool" where
  "is_high u = (0xD800 \<le> unat u \<and> unat u \<le> 0xDBFF)"

definition is_low :: "code_unit \<Rightarrow> bool" where
  "is_low u = (0xDC00 \<le> unat u \<and> unat u \<le> 0xDFFF)"

definition lone :: "code_unit \<Rightarrow> nat" where
  "lone u = (if is_high u \<or> is_low u then 0xFFFD else unat u)"

fun code_points :: "jsstring \<Rightarrow> nat list" where
  "code_points [] = []"
| "code_points [u] = [lone u]"
| "code_points (u # v # rest) =
     (if is_high u \<and> is_low v
      then (0x10000 + (unat u - 0xD800) * 0x400 + (unat v - 0xDC00)) # code_points rest
      else lone u # code_points (v # rest))"

definition utf8_bytes :: "nat \<Rightarrow> byte list" where
  "utf8_bytes cp =
     (if cp < 0x80 then [of_nat cp]
      else if cp < 0x800 then [of_nat (0xC0 + cp div 64), of_nat (0x80 + cp mod 64)]
      else if cp < 0x10000 then
        [of_nat (0xE0 + cp div 4096), of_nat (0x80 + cp div 64 mod 64),
         of_nat (0x80 + cp mod 64)]
      else
        [of_nat (0xF0 + cp div 262144), of_nat (0x80 + cp div 4096 mod 64),
         of_nat (0x80 + cp div 64 mod 64), of_nat (0x80 + cp mod 64)])"

definition Buffer_from_utf8 :: "jsstring \<Rightarrow> byte list" where
  "Buffer_from_utf8 s = concat (map utf8_bytes (code_points s))"

text \<open>
  Decoding replaces every maximal ill-formed prefix by one U+FFFD and resumes at the
  byte that broke the sequence. \<open>utf8_step b bs\<close> decodes the sequence led by \<open>b\<close> and
  returns the code point with the bytes left over.
\<close>

definition continuation :: "nat \<Rightarrow> nat \<Rightarrow> nat \<Rightarrow> bool" where
  "continuation lower upper b = (lower \<le> b \<and> b \<le> upper)"

definition utf8_step :: "nat \<Rightarrow> nat list \<Rightarrow> nat \<times> nat list" where
  "utf8_step b bs =
     (if b < 0x80 then (b, bs)
      else if 0xC2 \<le> b \<and> b \<le> 0xDF then
        (case bs of
           [] \<Rightarrow> (0xFFFD, [])
         | c # cs \<Rightarrow>
             if continuation 0x80 0xBF c then ((b - 0xC0) * 64 + (c - 0x80), cs)
             else (0xFFFD, bs))
      else if 0xE0 \<le> b \<and> b \<le> 0xEF then
        (case bs of
           [] \<Rightarrow> (0xFFFD, [])
         | c # cs \<Rightarrow>
             if continuation (if b = 0xE0 then 0xA0 else 0x80)
                  (if b = 0xED then 0x9F else 0xBF) c
             then
               (case cs of
                  [] \<Rightarrow> (0xFFFD, [])
                | d # ds \<Rightarrow>
                    if continuation 0x80 0xBF d
                    then ((b - 0xE0) * 4096 + (c - 0x80) * 64 + (d - 0x80), ds)
                    else (0xFFFD, cs))
             else (0xFFFD, bs))
      else if 0xF0 \<le> b \<and> b \<le> 0xF4 then
        (case bs of
           [] \<Rightarrow> (0xFFFD, [])
         | c # cs \<Rightarrow>
             if continuation (if b = 0xF0 then 0x90 else 0x80)
                  (if b = 0xF4 then 0x8F else 0xBF) c
             then
               (case cs of
                  [] \<Rightarrow> (0xFFFD, [])
                | d # ds \<Rightarrow>
                    if continuation 0x80 0xBF d
                    then
                      (case ds of
                         [] \<Rightarrow> (0xFFFD, [])
                       | e # es \<Rightarrow>
                           if continuation 0x80 0xBF e
                           then ((b - 0xF0) * 262144 + (c - 0x80) * 4096
                                   + (d - 0x80) * 64 + (e - 0x80), es)
                           else (0xFFFD, ds))
                    else (0xFFFD, cs))
             else (0xFFFD, bs))
      else (0xFFFD, bs))"

function utf8_decode :: "nat list \<Rightarrow> nat list" where
  "utf8_decode [] = []"
| "utf8_decode (b # bs) = fst (utf8_step b bs) # utf8_decode (snd (utf8_step b bs))"
  by pat_completeness auto
termination
  by (relation "measure length") (simp_all add: utf8_step_def less_Suc_eq_le split: list.split)

definition utf16_units :: "nat \<Rightarrow> jsstring" where
  "utf16_units cp =
     (if cp < 0x10000 then [of_nat cp]
      else [of_nat (0xD800 + (cp - 0x10000) div 0x400),
            of_nat (0xDC00 + (cp - 0x10000) mod 0x400)])"

definition Buffer_toString :: "byte list \<Rightarrow> jsstring" where
  "Buffer_toString buf = concat (map utf16_units (utf8_decode (map unat buf)))"

section \<open>The external client\<close>

text \<open>
  Descriptors whose fields this layer never reads (secrets, secret versions, the empty
  acknowledgment, echoed requests, raw responses) are opaque messages of type \<open>'m\<close>.
  The response to \<open>accessSecretVersion\<close> is the one message the code looks into: it has
  an optional payload, which has optional data, a Buffer.
\<close>

record secret_payload =
  data :: "byte list option"

record access_response =
  name :: "jsstring option"
  payload :: "secret_payload option"

datatype 'm "value" =
    Undefined
  | Null
  | String jsstring
  | Message 'm
  | AccessResponse access_response
  | Array "'m value list"

datatype replication = Automatic | UserManaged "jsstring list"

record secret_body =
  replication :: replication

text \<open>
  One constructor for each client operation the layer calls, with the fields of the request
  object in the order written: \<open>parent\<close>; \<open>parent\<close>; \<open>parent\<close>, \<open>secretId\<close>,
  \<open>secret\<close>; \<open>name\<close>; \<open>name\<close>; \<open>parent\<close>, \<open>payload\<close>; \<open>name\<close>.
\<close>

datatype request =
    ListSecrets jsstring
  | ListSecretVersions jsstring
  | CreateSecret jsstring jsstring secret_body
  | GetSecret jsstring
  | DeleteSecret jsstring
  | AddSecretVersion jsstring secret_payload
  | AccessSecretVersion jsstring

text \<open>
  A client call is a promise: against the client's state \<open>'s\<close> it is rejected with an
  error \<open>'e\<close> or resolved with the array \<open>[response, request, rawResponse]\<close>, and it
  leaves a new state. An asynchronous function of the layer has the same shape, resolved
  with one value.
\<close>

type_synonym ('s, 'e, 'm) client = "request \<Rightarrow> 's \<Rightarrow> ('e + 'm value list) \<times> 's"
type_synonym ('s, 'e, 'm) async = "'s \<Rightarrow> ('e + 'm value) \<times> 's"

text \<open>\<open>const [x] = array\<close>: the first element, \<open>undefined\<close> for an empty array.\<close>

fun first :: "'m value list \<Rightarrow> 'm value" where
  "first [] = Undefined"
| "first (x # rest) = x"

text \<open>
  \<open>traced c\<close> is the client \<open>c\<close> with a log: it answers as \<open>c\<close> does and appends each
  request it receives to the log kept beside the state of \<open>c\<close>.
\<close>

definition traced :: "('s, 'e, 'm) client \<Rightarrow> ('s \<times> request list, 'e, 'm) client" where
  "traced c r = (\<lambda>(\<sigma>, log). case c r \<sigma> of (answer, \<sigma>') \<Rightarrow> (answer, (\<sigma>', log @ [r])))"

section \<open>The TypeScript module\<close>

record ('s, 'e, 'm) baseInput =
  parent :: jsstring
  client :: "('s, 'e, 'm) client"

record ('s, 'e, 'm) requiredInput = "('s, 'e, 'm) baseInput" +
  secretId :: jsstring

record ('s, 'e, 'm) versionInput = "('s, 'e, 'm) requiredInput" +
  secretVersion :: jsstring

record ('s, 'e, 'm) contentInput = "('s, 'e, 'm) requiredInput" +
  secretContent :: jsstring

definition listSecrets :: "('s, 'e, 'm, 'z) baseInput_scheme \<Rightarrow> ('s, 'e, 'm) async" where
  "listSecrets input \<sigma> =
     (case client input (ListSecrets (parent input)) \<sigma> of
        (Inl err, \<sigma>') \<Rightarrow> (Inl err, \<sigma>')
      | (Inr response, \<sigma>') \<Rightarrow> (Inr (first response), \<sigma>'))"

definition versions :: "('s, 'e, 'm, 'z) baseInput_scheme \<Rightarrow> ('s, 'e, 'm) async" where
  "versions input \<sigma> =
     (case client input (ListSecretVersions (parent input)) \<sigma> of
        (Inl err, \<sigma>') \<Rightarrow> (Inl err, \<sigma>')
      | (Inr response, \<sigma>') \<Rightarrow> (Inr (first response), \<sigma>'))"

definition createSecret :: "('s, 'e, 'm, 'z) requiredInput_scheme \<Rightarrow> ('s, 'e, 'm) async" where
  "createSecret input \<sigma> =
     (case client input
             (CreateSecret (parent input) (secretId input) \<lparr>replication = Automatic\<rparr>) \<sigma> of
        (Inl err, \<sigma>') \<Rightarrow> (Inl err, \<sigma>')
      | (Inr response, \<sigma>') \<Rightarrow> (Inr (first response), \<sigma>'))"

definition getSecret :: "('s, 'e, 'm, 'z) requiredInput_scheme \<Rightarrow> ('s, 'e, 'm) async" where
  "getSecret input \<sigma> =
     (case client input
             (GetSecret (parent input @ ascii ''/secrets/'' @ secretId input)) \<sigma> of
        (Inl err, \<sigma>') \<Rightarrow> (Inl err, \<sigma>')
      | (Inr response, \<sigma>') \<Rightarrow> (Inr (first response), \<sigma>'))"

text \<open>\<open>deleteSecret\<close> returns the client's promise itself: no element is taken out.\<close>

definition deleteSecret :: "('s, 'e, 'm, 'z) requiredInput_scheme \<Rightarrow> ('s, 'e, 'm) async" where
  "deleteSecret input \<sigma> =
     (case client input
             (DeleteSecret (parent input @ ascii ''/secrets/'' @ secretId input)) \<sigma> of
        (Inl err, \<sigma>') \<Rightarrow> (Inl err, \<sigma>')
      | (Inr response, \<sigma>') \<Rightarrow> (Inr (Array response), \<sigma>'))"

definition addNewVersion :: "('s, 'e, 'm, 'z) contentInput_scheme \<Rightarrow> ('s, 'e, 'm) async" where
  "addNewVersion input \<sigma> =
     (case client input
             (AddSecretVersion (parent input @ ascii ''/secrets/'' @ secretId input)
                \<lparr>data = Some (Buffer_from_utf8 (secretContent input))\<rparr>) \<sigma> of
        (Inl err, \<sigma>') \<Rightarrow> (Inl err, \<sigma>')
      | (Inr response, \<sigma>') \<Rightarrow> (Inr (first response), \<sigma>'))"

text \<open>
  \<open>accessResponse?.payload?.data?.toString() ?? null\<close>: each \<open>?.\<close> yields \<open>undefined\<close>
  on \<open>undefined\<close> or \<open>null\<close>, a value of another kind has no member \<open>payload\<close>, and
  \<open>??\<close> turns the \<open>undefined\<close> into \<open>null\<close>.
\<close>

definition payload_text :: "'m value \<Rightarrow> 'm value" where
  "payload_text accessResponse =
     (case accessResponse of
        AccessResponse r \<Rightarrow>
          (case payload r of
             None \<Rightarrow> Null
           | Some p \<Rightarrow>
               (case data p of
                  None \<Rightarrow> Null
                | Some d \<Rightarrow> String (Buffer_toString d)))
      | _ \<Rightarrow> Null)"

definition access :: "('s, 'e, 'm, 'z) versionInput_scheme \<Rightarrow> ('s, 'e, 'm) async" where
  "access input \<sigma> =
     (case client input
             (AccessSecretVersion
                (parent input @ ascii ''/secrets/'' @ secretId input
                   @ ascii ''/versions/'' @ secretVersion input)) \<sigma> of
        (Inl err, \<sigma>') \<Rightarrow> (Inl err, \<sigma>')
      | (Inr response, \<sigma>') \<Rightarrow> (Inr (payload_text (first response)), \<sigma>'))"

definition accessOnlyLatest :: "('s, 'e, 'm, 'z) requiredInput_scheme \<Rightarrow> ('s, 'e, 'm) async" where
  "accessOnlyLatest input \<sigma> =
     (case client input
             (AccessSecretVersion
                (parent input @ ascii ''/secrets/'' @ secretId input
                   @ ascii ''/versions/latest'')) \<sigma> of
        (Inl err, \<sigma>') \<Rightarrow> (Inl err, \<sigma>')
      | (Inr response, \<sigma>') \<Rightarrow> (Inr (payload_text (first response)), \<sigma>'))"

text \<open>
  The handle is an object literal: its property names in the order written, each bound
  to an asynchronous function of no argument, of the content string, or of the optional
  version number.
\<close>

datatype ('s, 'e, 'm) member =
    Thunk "('s, 'e, 'm) async"
  | OfContent "jsstring \<Rightarrow> ('s, 'e, 'm) async"
  | OfVersion "number option \<Rightarrow> ('s, 'e, 'm) async"

type_synonym ('s, 'e, 'm) handle = "(string \<times> ('s, 'e, 'm) member) list"

definition makeSecrets :: "('s, 'e, 'm) requiredInput \<Rightarrow> ('s, 'e, 'm) handle" where
  "makeSecrets input =
     (let secretInput =
            \<lparr>parent = parent input, client = client input, secretId = secretId input\<rparr>
      in [(''create'', Thunk (createSecret secretInput)),
          (''get'', Thunk (getSecret secretInput)),
          (''delete'', Thunk (deleteSecret secretInput)),
          (''addVersion'', OfContent (\<lambda>secretContent.
             addNewVersion
               \<lparr>parent = parent secretInput, client = client secretInput,
                secretId = secretId secretInput, secretContent = secretContent\<rparr>)),
          (''access'', OfVersion (\<lambda>version.
             access
               \<lparr>parent = parent secretInput, client = client secretInput,
                secretId = secretId secretInput,
                secretVersion = toString_or version (ascii ''latest'')\<rparr>)),
          (''accessOnlyLatest'', Thunk (accessOnlyLatest
               \<lparr>parent = parent secretInput, client = client secretInput,
                secretId = secretId secretInput\<rparr>))])"

definition exports :: "string list" where
  "exports =
     [''makeSecretsWithProject'', ''listSecrets'', ''versions'', ''createSecret'',
      ''getSecret'', ''deleteSecret'', ''addNewVersion'', ''access'', ''accessOnlyLatest'']"

text \<open>
  Calling a property of the handle against a client state: \<open>None\<close> when the handle has
  no property of that name taking such an argument list (in JavaScript the call throws a
  TypeError before any request is made).
\<close>

definition call ::
  "('s, 'e, 'm) handle \<Rightarrow> string \<Rightarrow> 's \<Rightarrow> (('e + 'm value) \<times> 's) option" where
  "call h k \<sigma> = (case map_of h k of Some (Thunk f) \<Rightarrow> Some (f \<sigma>) | _ \<Rightarrow> None)"

definition call_content ::
  "('s, 'e, 'm) handle \<Rightarrow> string \<Rightarrow> jsstring \<Rightarrow> 's \<Rightarrow> (('e + 'm value) \<times> 's) option" where
  "call_content h k s \<sigma> =
     (case map_of h k of Some (OfContent f) \<Rightarrow> Some (f s \<sigma>) | _ \<Rightarrow> None)"

definition call_version ::
  "('s, 'e, 'm) handle \<Rightarrow> string \<Rightarrow> number option \<Rightarrow> 's
     \<Rightarrow> (('e + 'm value) \<times> 's) option" where
  "call_version h k v \<sigma> =
     (case map_of h k of Some (OfVersion f) \<Rightarrow> Some (f v \<sigma>) | _ \<Rightarrow> None)"

section \<open>The compiled module \<open>output/index.js\<close>\<close>

definition output_listSecrets ::
  "('s, 'e, 'm, 'z) baseInput_scheme \<Rightarrow> ('s, 'e, 'm) async" where
  "output_listSecrets input \<sigma> =
     (case client input (ListSecrets (parent input)) \<sigma> of
        (Inl err, \<sigma>') \<Rightarrow> (Inl err, \<sigma>')
      | (Inr response, \<sigma>') \<Rightarrow> (Inr (first response), \<sigma>'))"

definition output_versions ::
  "('s, 'e, 'm, 'z) baseInput_scheme \<Rightarrow> ('s, 'e, 'm) async" where
  "output_versions input \<sigma> =
     (case client input (ListSecretVersions (parent input)) \<sigma> of
        (Inl err, \<sigma>') \<Rightarrow> (Inl err, \<sigma>')
      | (Inr response, \<sigma>') \<Rightarrow> (Inr (first response), \<sigma>'))"

definition output_createSecret ::
  "('s, 'e, 'm, 'z) requiredInput_scheme \<Rightarrow> ('s, 'e, 'm) async" where
  "output_createSecret input \<sigma> =
     (case client input
             (CreateSecret (parent input) (secretId input) \<lparr>replication = Automatic\<rparr>) \<sigma> of
        (Inl err, \<sigma>') \<Rightarrow> (Inl err, \<sigma>')
      | (Inr response, \<sigma>') \<Rightarrow> (Inr (first response), \<sigma>'))"

definition output_getSecret ::
  "('s, 'e, 'm, 'z) requiredInput_scheme \<Rightarrow> ('s, 'e, 'm) async" where
  "output_getSecret input \<sigma> =
     (case client input
             (GetSecret (parent input @ ascii ''/secrets/'' @ secretId input)) \<sigma> of
        (Inl err, \<sigma>') \<Rightarrow> (Inl err, \<sigma>')
      | (Inr response, \<sigma>') \<Rightarrow> (Inr (first response), \<sigma>'))"

definition output_deleteSecret ::
  "('s, 'e, 'm, 'z) requiredInput_scheme \<Rightarrow> ('s, 'e, 'm) async" where
  "output_deleteSecret input \<sigma> =
     (case client input
             (DeleteSecret (parent input @ ascii ''/secrets/'' @ secretId input)) \<sigma> of
        (Inl err, \<sigma>') \<Rightarrow> (Inl err, \<sigma>')
      | (Inr response, \<sigma>') \<Rightarrow> (Inr (Array response), \<sigma>'))"

definition output_addNewVersion ::
  "('s, 'e, 'm, 'z) contentInput_scheme \<Rightarrow> ('s, 'e, 'm) async" where
  "output_addNewVersion input \<sigma> =
     (case client input
             (AddSecretVersion (parent input @ ascii ''/secrets/'' @ secretId input)
                \<lparr>data = Some (Buffer_from_utf8 (secretContent input))\<rparr>) \<sigma> of
        (Inl err, \<sigma>') \<Rightarrow> (Inl err, \<sigma>')
      | (Inr response, \<sigma>') \<Rightarrow> (Inr (first response), \<sigma>'))"

definition output_access ::
  "('s, 'e, 'm, 'z) versionInput_scheme \<Rightarrow> ('s, 'e, 'm) async" where
  "output_access input \<sigma> =
     (case client input
             (AccessSecretVersion
                (parent input @ ascii ''/secrets/'' @ secretId input
                   @ ascii ''/versions/'' @ secretVersion input)) \<sigma> of
        (Inl err, \<sigma>') \<Rightarrow> (Inl err, \<sigma>')
      | (Inr response, \<sigma>') \<Rightarrow> (Inr (payload_text (first response)), \<sigma>'))"

definition output_makeSecrets :: "('s, 'e, 'm) requiredInput \<Rightarrow> ('s, 'e, 'm) handle" where
  "output_makeSecrets input =
     (let secretInput =
            \<lparr>parent = parent input, client = client input, secretId = secretId input\<rparr>
      in [(''create'', Thunk (output_createSecret secretInput)),
          (''get'', Thunk (output_getSecret secretInput)),
          (''delete'', Thunk (output_deleteSecret secretInput)),
          (''addVersion'', OfContent (\<lambda>secretContent.
             output_addNewVersion
               \<lparr>parent = parent secretInput, client = client secretInput,
                secretId = secretId secretInput, secretContent = secretContent\<rparr>)),
          (''access'', OfVersion (\<lambda>version.
             output_access
               \<lparr>parent = parent secretInput, client = client secretInput,
                secretId = secretId secretInput,
                secretVersion = toString_or version (ascii ''latest'')\<rparr>))])"

definition output_exports :: "string list" where
  "output_exports =
     [''access'', ''addNewVersion'', ''createSecret'', ''deleteSecret'', ''getSecret'',
      ''listSecrets'', ''makeSecretsWithProject'', ''versions'']"

section \<open>A service that keeps what it is given\<close>

text \<open>
  The external service reduced to its version store: adding a version to a secret files
  the payload under the next version number of that secret and under \<open>latest\<close>; accessing
  a version resource returns the payload filed under its name, or fails when there is
  none. The other operations are not part of this service.
\<close>

datatype service_error = NotFound | InvalidArgument | Unimplemented

datatype descriptor = Empty | Named jsstring

record store =
  count :: "jsstring \<Rightarrow> nat"
  stored :: "jsstring \<Rightarrow> byte list option"

definition empty_store :: store where
  "empty_store = \<lparr>count = (\<lambda>secret. 0), stored = (\<lambda>version. None)\<rparr>"

fun service :: "(store, service_error, descriptor) client" where
  "service (AddSecretVersion secret p) \<sigma> =
     (case data p of
        None \<Rightarrow> (Inl InvalidArgument, \<sigma>)
      | Some d \<Rightarrow>
          (let n = count \<sigma> secret + 1;
               numbered = secret @ ascii ''/versions/'' @ decimal (int n)
           in (Inr [Message (Named numbered), Undefined, Undefined],
               \<lparr>count = (count \<sigma>)(secret := n),
                stored = (stored \<sigma>)(numbered \<mapsto> d,
                           secret @ ascii ''/versions/latest'' \<mapsto> d)\<rparr>)))"
| "service (AccessSecretVersion version) \<sigma> =
     (case stored \<sigma> version of
        None \<Rightarrow> (Inl NotFound, \<sigma>)
      | Some d \<Rightarrow>
          (Inr [AccessResponse \<lparr>name = Some version, payload = Some \<lparr>data = Some d\<rparr>\<rparr>,
                Undefined, Undefined], \<sigma>))"
| "service r \<sigma> = (Inl Unimplemented, \<sigma>)"

text \<open>
  A string is well formed when every surrogate in it belongs to a pair: a high surrogate
  immediately followed by a low one.
\<close>

fun well_formed :: "jsstring \<Rightarrow> bool" where
  "well_formed [] = True"
| "well_formed [u] = (\<not> is_high u \<and> \<not> is_low u)"
| "well_formed (u # v # rest) =
     (if is_high u \<and> is_low v then well_formed rest
      else \<not> is_high u \<and> \<not> is_low u \<and> well_formed (v # rest))"

text \<open>
  A Unicode scalar value is a code point that is not a surrogate: what a well-formed
  string holds, and what UTF-8 can carry.
\<close>

definition scalar :: "nat \<Rightarrow> bool" where
  "scalar c = (c < 0x110000 \<and> \<not> (0xD800 \<le> c \<and> c \<le> 0xDFFF))"

section \<open>Observing calls\<close>

text \<open>
  \<open>issued\<close> reads the log a call against a traced client leaves behind, \<open>settled\<close> the
  value or error the call's promise settles with. \<open>answering response\<close> is the client
  that resolves every request with the same array and has no state of its own; its
  messages are descriptors known by name only, or the empty acknowledgment.
\<close>

definition issued :: "('a \<times> 's \<times> request list) option \<Rightarrow> request list option" where
  "issued r = map_option (\<lambda>(answer, \<sigma>, log). log) r"

definition settled :: "('a \<times> 's) option \<Rightarrow> 'a option" where
  "settled r = map_option fst r"

definition answering :: "'m value list \<Rightarrow> (unit, 'e, 'm) client" where
  "answering response r \<sigma> = (Inr response, \<sigma>)"

text \<open>
  The array the client resolves a deletion with: the empty acknowledgment, then the
  request and the raw response, both left out.
\<close>

definition acknowledged :: "descriptor value list" where
  "acknowledged = [Message Empty, Undefined, Undefined]"

text \<open>The replication policy a request carries, if it carries one.\<close>

fun replication_sent :: "request \<Rightarrow> replication option" where
  "replication_sent (CreateSecret p i body) = Some (replication body)"
| "replication_sent r = None"

text \<open>
  The round trip: \<open>addVersion(content)\<close> on the handle, then \<open>access()\<close> with no
  argument on the state the first call left.
\<close>

definition round_trip ::
  "('s, 'e, 'm) handle \<Rightarrow> jsstring \<Rightarrow> 's \<Rightarrow> ('e + 'm value) option" where
  "round_trip h content \<sigma> =
     (case call_content h ''addVersion'' content \<sigma> of
        None \<Rightarrow> None
      | Some (added, \<sigma>') \<Rightarrow> settled (call_version h ''access'' None \<sigma>'))"

section \<open>UTF-8 encoding followed by decoding\<close>

lemma step1: "c < 0x80 \<Longrightarrow> utf8_step c rest = (c, rest)"
  by (simp add: utf8_step_def)

lemma step2:
  assumes "0x80 \<le> c" "c < 0x800"
  shows "utf8_step (0xC0 + c div 64) ((0x80 + c mod 64) # rest) = (c, rest)"
proof -
  have q: "2 \<le> c div 64" "c div 64 < 32" using assms by arith+
  have r: "c mod 64 < 64" by simp
  show ?thesis using q r by (simp add: utf8_step_def continuation_def)
qed

lemma three_bytes:
  assumes "a < 16" "b < 64" "d < 64" "a = 0 \<longrightarrow> 32 \<le> b" "a = 13 \<longrightarrow> b < 32"
  shows "utf8_step (0xE0 + a) ((0x80 + b) # (0x80 + d) # rest) = (a * 4096 + b * 64 + d, rest)"
  using assms by (auto simp add: utf8_step_def continuation_def)

lemma four_bytes:
  assumes "a < 5" "b < 64" "d < 64" "e < 64" "a = 0 \<longrightarrow> 16 \<le> b" "a = 4 \<longrightarrow> b < 16"
  shows "utf8_step (0xF0 + a) ((0x80 + b) # (0x80 + d) # (0x80 + e) # rest)
           = (a * 262144 + b * 4096 + d * 64 + e, rest)"
  using assms by (auto simp add: utf8_step_def continuation_def)

lemma regroup: "q div 64 * 4096 + q mod 64 * 64 = q * (64::nat)"
proof -
  have "(a * 64 + b) * 64 = a * 4096 + b * (64::nat)" for a b by simp
  from this [of "q div 64" "q mod 64"] show ?thesis by simp
qed

lemma split3: "c div 4096 * 4096 + c div 64 mod 64 * 64 + c mod 64 = (c::nat)"
proof -
  have "c div 4096 = c div 64 div 64" by (simp add: div_mult2_eq)
  then show ?thesis using regroup [of "c div 64"] by simp
qed

lemma regroup4: "q div 64 * 262144 + q mod 64 * 4096 = q * (4096::nat)"
proof -
  have "(a * 64 + b) * 4096 = a * 262144 + b * (4096::nat)" for a b by simp
  from this [of "q div 64" "q mod 64"] show ?thesis by simp
qed

lemma split4:
  "c div 262144 * 262144 + c div 4096 mod 64 * 4096 + c div 64 mod 64 * 64 + c mod 64 = (c::nat)"
proof -
  have "c div 262144 = c div 4096 div 64" by (simp add: div_mult2_eq)
  then show ?thesis using regroup4 [of "c div 4096"] split3 [of c] by simp
qed

lemma lead3:
  fixes c :: nat
  assumes "0x800 \<le> c" "c < 0x10000" "\<not> (0xD800 \<le> c \<and> c \<le> 0xDFFF)"
  shows "c div 4096 < 16" "c div 4096 = 0 \<longrightarrow> 32 \<le> c div 64 mod 64"
    "c div 4096 = 13 \<longrightarrow> c div 64 mod 64 < 32"
proof -
  define a where "a = c div 4096"
  define b where "b = c div 64 mod 64"
  define d where "d = c mod 64"
  have c: "a * 4096 + b * 64 + d = c" unfolding a_def b_def d_def by (rule split3)
  have r: "b < 64" "d < 64" by (simp_all add: b_def d_def)
  show "c div 4096 < 16" unfolding a_def [symmetric] using c assms by arith
  show "c div 4096 = 0 \<longrightarrow> 32 \<le> c div 64 mod 64"
    unfolding a_def [symmetric] b_def [symmetric] using c r assms by arith
  show "c div 4096 = 13 \<longrightarrow> c div 64 mod 64 < 32"
    unfolding a_def [symmetric] b_def [symmetric] using c r assms by arith
qed

lemma lead4:
  fixes c :: nat
  assumes "0x10000 \<le> c" "c < 0x110000"
  shows "c div 262144 < 5" "c div 262144 = 0 \<longrightarrow> 16 \<le> c div 4096 mod 64"
    "c div 262144 = 4 \<longrightarrow> c div 4096 mod 64 < 16"
proof -
  define a where "a = c div 262144"
  define b where "b = c div 4096 mod 64"
  define d where "d = c div 64 mod 64"
  define e where "e = c mod 64"
  have c: "a * 262144 + b * 4096 + d * 64 + e = c"
    unfolding a_def b_def d_def e_def by (rule split4)
  have r: "b < 64" "d < 64" "e < 64" by (simp_all add: b_def d_def e_def)
  show "c div 262144 < 5" unfolding a_def [symmetric] using c assms by arith
  show "c div 262144 = 0 \<longrightarrow> 16 \<le> c div 4096 mod 64"
    unfolding a_def [symmetric] b_def [symmetric] using c r assms by arith
  show "c div 262144 = 4 \<longrightarrow> c div 4096 mod 64 < 16"
    unfolding a_def [symmetric] b_def [symmetric] using c r assms by arith
qed

lemma step3:
  assumes "0x800 \<le> c" "c < 0x10000" "\<not> (0xD800 \<le> c \<and> c \<le> 0xDFFF)"
  shows "utf8_step (0xE0 + c div 4096) ((0x80 + c div 64 mod 64) # (0x80 + c mod 64) # rest)
           = (c, rest)"
  using three_bytes [of "c div 4096" "c div 64 mod 64" "c mod 64" rest] lead3 [OF assms]
  by (simp add: split3)

lemma step4:
  assumes "0x10000 \<le> c" "c < 0x110000"
  shows "utf8_step (0xF0 + c div 262144)
           ((0x80 + c div 4096 mod 64) # (0x80 + c div 64 mod 64) # (0x80 + c mod 64) # rest)
           = (c, rest)"
  using four_bytes [of "c div 262144" "c div 4096 mod 64" "c div 64 mod 64" "c mod 64" rest]
    lead4 [OF assms]
  by (simp add: split4)

lemma unat_byte: "x < 256 \<Longrightarrow> unat (of_nat x :: byte) = x"
  by (simp add: unat_of_nat)

lemma decode_bytes:
  assumes "scalar c"
  shows "utf8_decode (map unat (utf8_bytes c) @ rest) = c # utf8_decode rest"
proof -
  have top: "c < 0x110000" and n: "\<not> (0xD800 \<le> c \<and> c \<le> 0xDFFF)"
    using assms by (simp_all add: scalar_def)
  show ?thesis
  proof (cases "c < 0x80")
    case True
    then have "map unat (utf8_bytes c) = [c]"
      unfolding utf8_bytes_def by (simp only: if_True list.map unat_byte)
    then show ?thesis using True by (simp add: step1)
  next
    case one: False
    show ?thesis
    proof (cases "c < 0x800")
      case True
      have "0xC0 + c div 64 < 256" "0x80 + c mod 64 < 256" using True by arith+
      then have "map unat (utf8_bytes c) = [0xC0 + c div 64, 0x80 + c mod 64]"
        unfolding utf8_bytes_def using one True
        by (simp only: if_True if_False list.map unat_byte)
      then show ?thesis using one True by (simp add: step2)
    next
      case two: False
      show ?thesis
      proof (cases "c < 0x10000")
        case True
        have r: "0x800 \<le> c" using two by simp
        have "0xE0 + c div 4096 < 256" "0x80 + c div 64 mod 64 < 256" "0x80 + c mod 64 < 256"
          using lead3(1) [OF r True n] by arith+
        then have "map unat (utf8_bytes c)
                     = [0xE0 + c div 4096, 0x80 + c div 64 mod 64, 0x80 + c mod 64]"
          unfolding utf8_bytes_def using one two True
          by (simp only: if_True if_False list.map unat_byte)
        then show ?thesis using r True n by (simp add: step3)
      next
        case three: False
        have r: "0x10000 \<le> c" using three by simp
        have "0xF0 + c div 262144 < 256" "0x80 + c div 4096 mod 64 < 256"
          "0x80 + c div 64 mod 64 < 256" "0x80 + c mod 64 < 256"
          using lead4(1) [OF r top] by arith+
        then have "map unat (utf8_bytes c)
                     = [0xF0 + c div 262144, 0x80 + c div 4096 mod 64,
                        0x80 + c div 64 mod 64, 0x80 + c mod 64]"
          unfolding utf8_bytes_def using one two three
          by (simp only: if_True if_False list.map unat_byte)
        then show ?thesis using r top by (simp add: step4)
      qed
    qed
  qed
qed

lemma decode_encoded:
  "\<forall>c \<in> set cs. scalar c \<Longrightarrow> utf8_decode (map unat (concat (map utf8_bytes cs))) = cs"
  by (induction cs) (simp_all add: decode_bytes)

lemma unat_unit: "unat (u :: code_unit) < 65536"
  using unsigned_less [of u, where 'a = nat] by simp

lemma lone_scalar: "\<not> is_high u \<Longrightarrow> \<not> is_low u \<Longrightarrow> scalar (lone u)"
  using unat_unit [of u] by (auto simp add: lone_def scalar_def is_high_def is_low_def)

lemma lone_units: "\<not> is_high u \<Longrightarrow> \<not> is_low u \<Longrightarrow> utf16_units (lone u) = [u]"
  using unat_unit [of u] by (simp add: lone_def utf16_units_def)

lemma pair_scalar:
  "is_high u \<Longrightarrow> is_low v \<Longrightarrow>
     scalar (0x10000 + (unat u - 0xD800) * 0x400 + (unat v - 0xDC00))"
proof -
  assume "is_high u" "is_low v"
  then have "unat u - 0xD800 < 0x400" "unat v - 0xDC00 < 0x400"
    unfolding is_high_def is_low_def by arith+
  then show ?thesis unfolding scalar_def by arith
qed

lemma pair_units:
  assumes "is_high u" "is_low v"
  shows "utf16_units (0x10000 + (unat u - 0xD800) * 0x400 + (unat v - 0xDC00)) = [u, v]"
proof -
  define h where "h = unat u - 0xD800"
  define l where "l = unat v - 0xDC00"
  have l: "l < 0x400" using assms unfolding l_def is_low_def by arith
  have u: "0xD800 + h = unat u" using assms unfolding h_def is_high_def by arith
  have v: "0xDC00 + l = unat v" using assms unfolding l_def is_low_def by arith
  have "(h * 0x400 + l) div 0x400 = h" "(h * 0x400 + l) mod 0x400 = l" using l by simp_all
  then have "utf16_units (0x10000 + h * 0x400 + l) = [of_nat (0xD800 + h), of_nat (0xDC00 + l)]"
    by (simp add: utf16_units_def)
  then show ?thesis unfolding u v unfolding h_def l_def by simp
qed

lemma code_points_well_formed:
  "well_formed s \<Longrightarrow>
     (\<forall>c \<in> set (code_points s). scalar c) \<and> concat (map utf16_units (code_points s)) = s"
proof (induction s rule: code_points.induct)
  case 1
  then show ?case by simp
next
  case (2 u)
  then show ?case by (simp add: lone_scalar lone_units)
next
  case (3 u v rest)
  show ?case
  proof (cases "is_high u \<and> is_low v")
    case True
    then show ?thesis using 3 by (auto simp add: pair_scalar pair_units)
  next
    case False
    then show ?thesis using 3 by (auto simp add: lone_scalar lone_units)
  qed
qed

lemma utf8_round_trip: "well_formed s \<Longrightarrow> Buffer_toString (Buffer_from_utf8 s) = s"
  by (simp add: Buffer_toString_def Buffer_from_utf8_def decode_encoded code_points_well_formed)

section \<open>Calls through the handle\<close>

lemma ascii_append: "ascii (a @ b) = ascii a @ ascii b"
  by (simp add: ascii_def)

lemma traced_apply:
  "traced c r (\<sigma>, log) = (fst (c r \<sigma>), (snd (c r \<sigma>), log @ [r]))"
  by (simp add: traced_def split: prod.split)

lemma issued_Some: "issued (Some (answer, \<sigma>, log)) = Some log"
  by (simp add: issued_def)

lemma call_get:
  "call (makeSecrets input) ''get'' \<sigma>
     = Some (getSecret \<lparr>parent = parent input, client = client input, secretId = secretId input\<rparr> \<sigma>)"
  by (simp add: call_def makeSecrets_def Let_def)

lemma call_delete:
  "call (makeSecrets input) ''delete'' \<sigma>
     = Some (deleteSecret \<lparr>parent = parent input, client = client input, secretId = secretId input\<rparr> \<sigma>)"
  by (simp add: call_def makeSecrets_def Let_def)

lemma call_create:
  "call (makeSecrets input) ''create'' \<sigma>
     = Some (createSecret \<lparr>parent = parent input, client = client input, secretId = secretId input\<rparr> \<sigma>)"
  by (simp add: call_def makeSecrets_def Let_def)

lemma call_accessOnlyLatest:
  "call (makeSecrets input) ''accessOnlyLatest'' \<sigma>
     = Some (accessOnlyLatest \<lparr>parent = parent input, client = client input, secretId = secretId input\<rparr> \<sigma>)"
  by (simp add: call_def makeSecrets_def Let_def)

lemma call_addVersion:
  "call_content (makeSecrets input) ''addVersion'' content \<sigma>
     = Some (addNewVersion \<lparr>parent = parent input, client = client input,
               secretId = secretId input, secretContent = content\<rparr> \<sigma>)"
  by (simp add: call_content_def makeSecrets_def Let_def)

lemma call_access:
  "call_version (makeSecrets input) ''access'' version \<sigma>
     = Some (access \<lparr>parent = parent input, client = client input, secretId = secretId input,
               secretVersion = toString_or version (ascii ''latest'')\<rparr> \<sigma>)"
  by (simp add: call_version_def makeSecrets_def Let_def)

lemma access_traced:
  "access \<lparr>parent = p, client = traced c, secretId = i, secretVersion = t\<rparr> (\<sigma>, log)
     = (map_sum id (\<lambda>response. payload_text (first response))
          (fst (c (AccessSecretVersion (p @ ascii ''/secrets/'' @ i @ ascii ''/versions/'' @ t)) \<sigma>)),
        snd (c (AccessSecretVersion (p @ ascii ''/secrets/'' @ i @ ascii ''/versions/'' @ t)) \<sigma>),
        log @ [AccessSecretVersion (p @ ascii ''/secrets/'' @ i @ ascii ''/versions/'' @ t)])"
  by (simp add: access_def traced_apply split: prod.split sum.split)

lemma accessOnlyLatest_eq:
  "accessOnlyLatest \<lparr>parent = p, client = c, secretId = i\<rparr>
     = access \<lparr>parent = p, client = c, secretId = i, secretVersion = ascii ''latest''\<rparr>"
  by (rule ext) (simp add: accessOnlyLatest_def access_def ascii_append [symmetric])

lemma getSecret_traced:
  "getSecret \<lparr>parent = p, client = traced c, secretId = i\<rparr> (\<sigma>, log)
     = (map_sum id first (fst (c (GetSecret (p @ ascii ''/secrets/'' @ i)) \<sigma>)),
        snd (c (GetSecret (p @ ascii ''/secrets/'' @ i)) \<sigma>),
        log @ [GetSecret (p @ ascii ''/secrets/'' @ i)])"
  by (simp add: getSecret_def traced_apply split: prod.split sum.split)

lemma deleteSecret_traced:
  "deleteSecret \<lparr>parent = p, client = traced c, secretId = i\<rparr> (\<sigma>, log)
     = (map_sum id Array (fst (c (DeleteSecret (p @ ascii ''/secrets/'' @ i)) \<sigma>)),
        snd (c (DeleteSecret (p @ ascii ''/secrets/'' @ i)) \<sigma>),
        log @ [DeleteSecret (p @ ascii ''/secrets/'' @ i)])"
  by (simp add: deleteSecret_def traced_apply split: prod.split sum.split)

lemma createSecret_traced:
  "createSecret \<lparr>parent = p, client = traced c, secretId = i\<rparr> (\<sigma>, log)
     = (map_sum id first (fst (c (CreateSecret p i \<lparr>replication = Automatic\<rparr>) \<sigma>)),
        snd (c (CreateSecret p i \<lparr>replication = Automatic\<rparr>) \<sigma>),
        log @ [CreateSecret p i \<lparr>replication = Automatic\<rparr>])"
  by (simp add: createSecret_def traced_apply split: prod.split sum.split)

lemma addNewVersion_traced:
  "addNewVersion \<lparr>parent = p, client = traced c, secretId = i, secretContent = s\<rparr> (\<sigma>, log)
     = (map_sum id first
          (fst (c (AddSecretVersion (p @ ascii ''/secrets/'' @ i)
                     \<lparr>data = Some (Buffer_from_utf8 s)\<rparr>) \<sigma>)),
        snd (c (AddSecretVersion (p @ ascii ''/secrets/'' @ i)
                  \<lparr>data = Some (Buffer_from_utf8 s)\<rparr>) \<sigma>),
        log @ [AddSecretVersion (p @ ascii ''/secrets/'' @ i)
                 \<lparr>data = Some (Buffer_from_utf8 s)\<rparr>])"
  by (simp add: addNewVersion_def traced_apply split: prod.split sum.split)

lemma replicate_numeral: "replicate (numeral k) x = x # replicate (pred_numeral k) x"
  by (simp add: numeral_eq_Suc)

lemmas rendering = positive_toString_def nat_digits.simps digit_def ascii_def Let_def
  replicate_numeral

lemma nat_digits_nonempty: "nat_digits n \<noteq> []"
  by (subst nat_digits.simps) simp

lemma nat_digits_last: "last (nat_digits n) = digit (n mod 10)"
  by (subst nat_digits.simps) simp

lemma nat_digits_length_pos: "0 < length (nat_digits n)"
  using nat_digits_nonempty [of n] by simp

lemma nat_digits_tens:
  "0 < m \<Longrightarrow> m mod 10 = 0 \<Longrightarrow> nat_digits m = nat_digits (m div 10) @ [digit 0]"
  by (subst nat_digits.simps) auto

lemma strip_zeros_digits:
  "0 < m \<Longrightarrow>
     length (nat_digits (strip_zeros m)) \<le> length (nat_digits m) \<and>
     nat_digits (strip_zeros m)
         @ replicate (length (nat_digits m) - length (nat_digits (strip_zeros m))) (digit 0)
       = nat_digits m \<and>
     strip_zeros m * 10 ^ (length (nat_digits m) - length (nat_digits (strip_zeros m))) = m"
proof (induction m rule: strip_zeros.induct)
  case (1 m)
  show ?case
  proof (cases "m mod 10 = 0")
    case False
    then have "strip_zeros m = m" by (subst strip_zeros.simps) simp
    then show ?thesis by simp
  next
    case True
    with 1(2) have pos: "0 < m div 10" by arith
    have s: "strip_zeros m = strip_zeros (m div 10)"
      using True 1(2) by (subst strip_zeros.simps) simp
    have d: "nat_digits m = nat_digits (m div 10) @ [digit 0]"
      using 1(2) True by (rule nat_digits_tens)
    from 1(1) True 1(2) pos
    have ih: "length (nat_digits (strip_zeros (m div 10))) \<le> length (nat_digits (m div 10))"
      "nat_digits (strip_zeros (m div 10))
         @ replicate (length (nat_digits (m div 10))
                        - length (nat_digits (strip_zeros (m div 10)))) (digit 0)
       = nat_digits (m div 10)"
      "strip_zeros (m div 10)
         * 10 ^ (length (nat_digits (m div 10)) - length (nat_digits (strip_zeros (m div 10))))
       = m div 10"
      by simp_all
    define a where "a = length (nat_digits (strip_zeros (m div 10)))"
    define b where "b = length (nat_digits (m div 10))"
    have ab: "Suc b - a = Suc (b - a)" using ih(1) unfolding a_def b_def by arith
    have m: "m div 10 * 10 = m" using True by arith
    have "nat_digits (strip_zeros (m div 10)) @ replicate (Suc (b - a)) (digit 0)
            = nat_digits (m div 10) @ [digit 0]"
      using ih(2) unfolding a_def b_def
      by (simp only: replicate_Suc replicate_append_same [symmetric] append_assoc [symmetric])
    moreover have "strip_zeros (m div 10) * 10 ^ Suc (b - a) = m"
      using ih(3) m unfolding a_def b_def by simp
    ultimately show ?thesis
      using ih(1) ab unfolding s d a_def b_def by simp
  qed
qed

lemma nat_digits_length_le: "0 < j \<Longrightarrow> m < 10 ^ j \<Longrightarrow> length (nat_digits m) \<le> j"
proof (induction j arbitrary: m)
  case 0
  then show ?case by simp
next
  case (Suc j)
  show ?case
  proof (cases "m < 10")
    case True
    then show ?thesis by (subst nat_digits.simps) simp
  next
    case False
    then have j: "0 < j" using Suc.prems(2) by (cases j) simp_all
    have "m div 10 < 10 ^ j" using Suc.prems(2) by (simp add: less_mult_imp_div_less)
    then have "length (nat_digits (m div 10)) \<le> j" using j by (rule Suc.IH [rotated])
    then show ?thesis using False by (subst nat_digits.simps) simp
  qed
qed

lemma Integer_toString:
  assumes "\<bar>i\<bar> < 10 ^ 21"
  shows "Number_toString (Integer i) = decimal i"
proof (cases "i = 0")
  case True
  then show ?thesis by (simp add: Integer_def decimal_def nat_digits.simps digit_def ascii_def)
next
  case False
  define m where "m = nat \<bar>i\<bar>"
  have pos: "0 < m" using False by (simp add: m_def)
  have "m < 10 ^ 21" using assms unfolding m_def by simp
  then have len: "length (nat_digits m) \<le> 21" by (intro nat_digits_length_le) simp_all
  note sd = strip_zeros_digits [OF pos]
  define a where "a = length (nat_digits (strip_zeros m))"
  define b where "b = length (nat_digits m)"
  have ab: "a \<le> b" "b \<le> 21" using sd len by (simp_all add: a_def b_def)
  then have n: "nat (int b - int a) = b - a" by simp
  have "positive_toString (strip_zeros m) (int (length (nat_digits m))) = nat_digits m"
    using ab sd unfolding positive_toString_def Let_def a_def [symmetric] b_def [symmetric]
    by (simp add: n)
  then show ?thesis
    using False by (auto simp add: Integer_def decimal_def m_def [symmetric] abs_if)
       (simp_all add: m_def)
qed

lemma integral_value_Integer: "integral_value (Integer i) = Some i"
proof (cases "i = 0")
  case True
  then show ?thesis by (simp add: Integer_def)
next
  case False
  define m where "m = nat \<bar>i\<bar>"
  have pos: "0 < m" using False by (simp add: m_def)
  note sd = strip_zeros_digits [OF pos]
  define a where "a = length (nat_digits (strip_zeros m))"
  define b where "b = length (nat_digits m)"
  have ab: "a \<le> b" using sd by (simp add: a_def b_def)
  then have n: "nat (int b - int a) = b - a" by simp
  have v: "int (strip_zeros m) * 10 ^ (b - a) = int m"
    using sd unfolding a_def b_def by (metis of_nat_mult of_nat_numeral of_nat_power)
  show ?thesis
    using False ab v unfolding Integer_def m_def [symmetric]
    by (simp add: Let_def a_def [symmetric] b_def [symmetric] n) (simp add: m_def)
qed

lemma safe_Integer: "Number_isSafeInteger (Integer i) \<longleftrightarrow> \<bar>i\<bar> \<le> 2 ^ 53 - 1"
  by (simp add: Number_isSafeInteger_def integral_value_Integer)

lemma safe_Integer_toString:
  "Number_isSafeInteger (Integer i) \<Longrightarrow> Number_toString (Integer i) = decimal i"
  by (rule Integer_toString) (simp add: safe_Integer)

lemma digit_not_t: "digit (n mod 10) \<noteq> 116"
proof
  assume "digit (n mod 10) = 116"
  then have "unat (of_nat (48 + n mod 10) :: code_unit) = unat (116 :: code_unit)"
    by (simp only: digit_def)
  moreover have "48 + n mod 10 < 65536" by arith
  then have "unat (of_nat (48 + n mod 10) :: code_unit) = 48 + n mod 10"
    by (simp only: unat_of_nat) simp
  ultimately have "48 + n mod 10 = 116" by simp
  then show False by arith
qed

lemma positive_toString_last:
  "positive_toString s n \<noteq> [] \<and> (\<exists>x. last (positive_toString s n) = digit (x mod 10))"
proof -
  define ds where "ds = nat_digits s"
  define k where "k = int (length ds)"
  have ne: "ds \<noteq> []" by (simp add: ds_def nat_digits_nonempty)
  have l: "last ds = digit (s mod 10)" by (simp add: ds_def nat_digits_last)
  have z: "digit 0 = digit (0 mod 10)" by simp
  have e: "nat_digits (nat \<bar>n - 1\<bar>) \<noteq> []"
    "last (nat_digits (nat \<bar>n - 1\<bar>)) = digit (nat \<bar>n - 1\<bar> mod 10)"
    by (simp_all add: nat_digits_nonempty nat_digits_last)
  consider (whole) "k \<le> n \<and> n \<le> 21"
    | (point) "\<not> (k \<le> n \<and> n \<le> 21)" "0 < n \<and> n \<le> 21"
    | (small) "\<not> (k \<le> n \<and> n \<le> 21)" "\<not> (0 < n \<and> n \<le> 21)" "- 6 < n \<and> n \<le> 0"
    | (expo) "\<not> (k \<le> n \<and> n \<le> 21)" "\<not> (0 < n \<and> n \<le> 21)" "\<not> (- 6 < n \<and> n \<le> 0)"
    by blast
  then show ?thesis
  proof cases
    case whole
    then have p: "positive_toString s n = ds @ replicate (nat (n - k)) (digit 0)"
      by (simp add: positive_toString_def Let_def ds_def k_def)
    show ?thesis
    proof (cases "nat (n - k) = 0")
      case True
      then show ?thesis using p ne l by auto
    next
      case False
      then have "last (positive_toString s n) = digit 0" using p by simp
      moreover have "positive_toString s n \<noteq> []" using p ne by simp
      ultimately show ?thesis by (intro conjI exI [of _ 0]) simp_all
    qed
  next
    case point
    then have p: "positive_toString s n = take (nat n) ds @ ascii ''.'' @ drop (nat n) ds"
      by (simp add: positive_toString_def Let_def ds_def k_def)
    have "nat n < length ds" using point unfolding k_def by arith
    then have "drop (nat n) ds \<noteq> []" "last (drop (nat n) ds) = last ds" by simp_all
    then show ?thesis using p l by auto
  next
    case small
    then have p: "positive_toString s n = ascii ''0.'' @ replicate (nat (- n)) (digit 0) @ ds"
      by (simp add: positive_toString_def Let_def ds_def k_def)
    then show ?thesis using ne l by auto
  next
    case expo
    then have "\<exists>front. positive_toString s n = front @ nat_digits (nat \<bar>n - 1\<bar>)"
      by (simp add: positive_toString_def Let_def ds_def [symmetric] k_def [symmetric])
        (metis append_assoc)
    then show ?thesis using e by auto
  qed
qed

lemma Number_toString_nonempty: "Number_toString v \<noteq> []"
  using positive_toString_last by (cases v) (simp_all add: ascii_def)

lemma Number_toString_not_latest: "Number_toString v \<noteq> ascii ''latest''"
proof (cases v)
  case (Finite negative s n)
  obtain x where ne: "positive_toString s n \<noteq> []"
    and l: "last (positive_toString s n) = digit (x mod 10)"
    using positive_toString_last by blast
  then have "last (Number_toString v) = digit (x mod 10)" using Finite by simp
  moreover have "last (ascii ''latest'') = 116" by (simp add: ascii_def)
  ultimately show ?thesis using digit_not_t by metis
qed (simp_all add: ascii_def)

lemma toString_or_None: "toString_or None d = d"
  by (simp add: toString_or_def)

lemma toString_or_Some: "toString_or (Some v) d = Number_toString v"
  by (simp add: toString_or_def Number_toString_nonempty)

lemma service_round_trip:
  "round_trip (makeSecrets \<lparr>parent = p, client = service, secretId = i\<rparr>) content \<sigma>
     = Some (Inr (String (Buffer_toString (Buffer_from_utf8 content))))"
  by (simp add: round_trip_def call_addVersion call_access addNewVersion_def access_def
        toString_or_None settled_def payload_text_def Let_def ascii_append [symmetric])

lemma call_output_access:
  "call_version (output_makeSecrets input) ''access'' version \<sigma>
     = Some (output_access \<lparr>parent = parent input, client = client input,
               secretId = secretId input,
               secretVersion = toString_or version (ascii ''latest'')\<rparr> \<sigma>)"
  by (simp add: call_version_def output_makeSecrets_def Let_def)

lemma output_access_eq: "output_access = access"
  by (intro ext) (simp add: output_access_def access_def)

lemma output_createSecret_eq: "output_createSecret = createSecret"
  by (intro ext) (simp add: output_createSecret_def createSecret_def)

lemma output_getSecret_eq: "output_getSecret = getSecret"
  by (intro ext) (simp add: output_getSecret_def getSecret_def)

lemma output_deleteSecret_eq: "output_deleteSecret = deleteSecret"
  by (intro ext) (simp add: output_deleteSecret_def deleteSecret_def)

lemma output_addNewVersion_eq: "output_addNewVersion = addNewVersion"
  by (intro ext) (simp add: output_addNewVersion_def addNewVersion_def)

lemma addNewVersion_result:
  "addNewVersion \<lparr>parent = p, client = c, secretId = i, secretContent = s\<rparr> \<sigma>
     = (map_sum id first
          (fst (c (AddSecretVersion (p @ ascii ''/secrets/'' @ i)
                     \<lparr>data = Some (Buffer_from_utf8 s)\<rparr>) \<sigma>)),
        snd (c (AddSecretVersion (p @ ascii ''/secrets/'' @ i)
                  \<lparr>data = Some (Buffer_from_utf8 s)\<rparr>) \<sigma>))"
  by (simp add: addNewVersion_def split: prod.split sum.split)

lemma createSecret_result:
  "createSecret \<lparr>parent = p, client = c, secretId = i\<rparr> \<sigma>
     = (map_sum id first (fst (c (CreateSecret p i \<lparr>replication = Automatic\<rparr>) \<sigma>)),
        snd (c (CreateSecret p i \<lparr>replication = Automatic\<rparr>) \<sigma>))"
  by (simp add: createSecret_def split: prod.split sum.split)

lemma member_of_makeSecrets:
  "map_of (makeSecrets input) k = Some m \<Longrightarrow>
     k = ''create'' \<or> k = ''get'' \<or> k = ''delete'' \<or> k = ''addVersion'' \<or> k = ''access''
       \<or> k = ''accessOnlyLatest''"
  by (simp add: makeSecrets_def Let_def split: if_splits)

lemma replication_of_issued:
  assumes "issued (call (makeSecrets \<lparr>parent = p, client = traced c, secretId = i\<rparr>) k (s, []))
             = Some made
           \<or> issued (call_content (makeSecrets \<lparr>parent = p, client = traced c, secretId = i\<rparr>)
                       k content (s, [])) = Some made
           \<or> issued (call_version (makeSecrets \<lparr>parent = p, client = traced c, secretId = i\<rparr>)
                       k version (s, [])) = Some made"
    and "r \<in> set made"
  shows "replication_sent r = None \<or> replication_sent r = Some Automatic"
proof -
  obtain m where m: "map_of (makeSecrets \<lparr>parent = p, client = traced c, secretId = i\<rparr>) k = Some m"
    using assms(1) by (auto simp add: call_def call_content_def call_version_def issued_def
        split: option.splits)
  from member_of_makeSecrets [OF m] show ?thesis
  proof (elim disjE)
    assume 1: "k = ''create''"
    have "call_content (makeSecrets \<lparr>parent = p, client = traced c, secretId = i\<rparr>)
            ''create'' content (s, []) = None"
      and "call_version (makeSecrets \<lparr>parent = p, client = traced c, secretId = i\<rparr>)
            ''create'' version (s, []) = None"
      by (simp_all add: call_content_def call_version_def makeSecrets_def Let_def)
    then show ?thesis using assms 1
      by (auto simp add: call_create createSecret_traced issued_def)
  next
    assume 2: "k = ''get''"
    have "call_content (makeSecrets \<lparr>parent = p, client = traced c, secretId = i\<rparr>)
            ''get'' content (s, []) = None"
      and "call_version (makeSecrets \<lparr>parent = p, client = traced c, secretId = i\<rparr>)
            ''get'' version (s, []) = None"
      by (simp_all add: call_content_def call_version_def makeSecrets_def Let_def)
    then show ?thesis using assms 2
      by (auto simp add: call_get getSecret_traced issued_def)
  next
    assume 3: "k = ''delete''"
    have "call_content (makeSecrets \<lparr>parent = p, client = traced c, secretId = i\<rparr>)
            ''delete'' content (s, []) = None"
      and "call_version (makeSecrets \<lparr>parent = p, client = traced c, secretId = i\<rparr>)
            ''delete'' version (s, []) = None"
      by (simp_all add: call_content_def call_version_def makeSecrets_def Let_def)
    then show ?thesis using assms 3
      by (auto simp add: call_delete deleteSecret_traced issued_def)
  next
    assume 4: "k = ''addVersion''"
    have "call (makeSecrets \<lparr>parent = p, client = traced c, secretId = i\<rparr>)
            ''addVersion'' (s, []) = None"
      and "call_version (makeSecrets \<lparr>parent = p, client = traced c, secretId = i\<rparr>)
            ''addVersion'' version (s, []) = None"
      by (simp_all add: call_def call_version_def makeSecrets_def Let_def)
    then show ?thesis using assms 4
      by (auto simp add: call_addVersion addNewVersion_traced issued_def)
  next
    assume 5: "k = ''access''"
    have "call (makeSecrets \<lparr>parent = p, client = traced c, secretId = i\<rparr>)
            ''access'' (s, []) = None"
      and "call_content (makeSecrets \<lparr>parent = p, client = traced c, secretId = i\<rparr>)
            ''access'' content (s, []) = None"
      by (simp_all add: call_def call_content_def makeSecrets_def Let_def)
    then show ?thesis using assms 5
      by (auto simp add: call_access access_traced issued_def)
  next
    assume 6: "k = ''accessOnlyLatest''"
    have "call_content (makeSecrets \<lparr>parent = p, client = traced c, secretId = i\<rparr>)
            ''accessOnlyLatest'' content (s, []) = None"
      and "call_version (makeSecrets \<lparr>parent = p, client = traced c, secretId = i\<rparr>)
            ''accessOnlyLatest'' version (s, []) = None"
      by (simp_all add: call_content_def call_version_def makeSecrets_def Let_def)
    then show ?thesis using assms 6
      by (auto simp add: call_accessOnlyLatest accessOnlyLatest_eq access_traced issued_def)
  qed
qed

section \<open>The secret handle\<close>

text \<open>
  C1. For every parent, secret identifier and client, in every state: \<open>access()\<close> with
  the version omitted resolves the version to the string \<open>latest\<close>, and the one request
  it issues is \<open>accessSecretVersion\<close> for \<open>{parent}/secrets/{secretId}/versions/latest\<close>.
\<close>

theorem access_omitted_version_is_latest:
  "toString_or None (ascii ''latest'') = ascii ''latest'' \<and>
   issued (call_version (makeSecrets \<lparr>parent = p, client = traced c, secretId = i\<rparr>)
             ''access'' None (\<sigma>, log))
     = Some (log @ [AccessSecretVersion (p @ ascii ''/secrets/'' @ i @ ascii ''/versions/latest'')])"
  by (simp add: call_access access_traced issued_Some toString_or_def ascii_append [symmetric])

text \<open>
  C2. For every handle and every state of the client, \<open>accessOnlyLatest()\<close> and
  \<open>access()\<close> with no argument are the same call: they settle with the same result and
  leave the same client state, and each issues the one request \<open>accessSecretVersion\<close> for
  \<open>{parent}/secrets/{secretId}/versions/latest\<close>.
\<close>

theorem accessOnlyLatest_is_access_without_version:
  "call (makeSecrets input) ''accessOnlyLatest'' \<sigma>
     = call_version (makeSecrets input) ''access'' None \<sigma> \<and>
   call (makeSecrets input) ''accessOnlyLatest'' \<sigma> \<noteq> None \<and>
   issued (call (makeSecrets \<lparr>parent = p, client = traced c, secretId = i\<rparr>)
             ''accessOnlyLatest'' (s, log))
     = Some (log @ [AccessSecretVersion (p @ ascii ''/secrets/'' @ i @ ascii ''/versions/latest'')]) \<and>
   issued (call_version (makeSecrets \<lparr>parent = p, client = traced c, secretId = i\<rparr>)
             ''access'' None (s, log))
     = Some (log @ [AccessSecretVersion (p @ ascii ''/secrets/'' @ i @ ascii ''/versions/latest'')])"
  by (simp add: call_accessOnlyLatest call_access accessOnlyLatest_eq toString_or_def
        access_traced issued_Some ascii_append [symmetric])

text \<open>
  C3. The claim is that \<open>delete()\<close> returns the empty acknowledgment the client reports,
  or \<open>undefined\<close>, and no other shape of the response. Against a client that resolves the
  deletion with \<open>[{}, undefined, undefined]\<close>, \<open>delete()\<close> resolves with that whole
  array: it is neither the acknowledgment, which is the array's first element, nor
  \<open>undefined\<close>. On the same client \<open>get()\<close> resolves with the first element alone.
\<close>

theorem delete_returns_whole_response:
  "settled (call (makeSecrets \<lparr>parent = ascii ''projects/p'',
                     client = (answering acknowledged :: (unit, service_error, descriptor) client),
                     secretId = ascii ''s''\<rparr>) ''delete'' ())
     = Some (Inr (Array [Message Empty, Undefined, Undefined])) \<and>
   Array [Message Empty, Undefined, Undefined] \<noteq> first acknowledged \<and>
   Array [Message Empty, Undefined, Undefined] \<noteq> Undefined \<and>
   first acknowledged = Message Empty \<and>
   settled (call (makeSecrets \<lparr>parent = ascii ''projects/p'',
                     client = (answering acknowledged :: (unit, service_error, descriptor) client),
                     secretId = ascii ''s''\<rparr>) ''get'' ())
     = Some (Inr (Message Empty))"
  by (simp add: call_delete call_get deleteSecret_def getSecret_def answering_def settled_def
        acknowledged_def)

text \<open>
  C4. For every non-empty parent and secret identifier and every client: \<open>get()\<close> and
  \<open>delete()\<close> issue their request for the name \<open>{parent}/secrets/{secretId}\<close>,
  \<open>addVersion(content)\<close> for the parent \<open>{parent}/secrets/{secretId}\<close>, \<open>access(n)\<close> with
  a safe integer \<open>n\<close> for \<open>{parent}/secrets/{secretId}/versions/\<close> followed by the decimal
  digits of \<open>n\<close>, and \<open>access()\<close> for the same followed by \<open>latest\<close>.
\<close>

theorem resource_names:
  assumes "p \<noteq> []" and "i \<noteq> []" and "Number_isSafeInteger (Integer n)"
  shows
    "issued (call (makeSecrets \<lparr>parent = p, client = traced c, secretId = i\<rparr>) ''get'' (\<sigma>, log))
       = Some (log @ [GetSecret (p @ ascii ''/secrets/'' @ i)]) \<and>
     issued (call (makeSecrets \<lparr>parent = p, client = traced c, secretId = i\<rparr>) ''delete'' (\<sigma>, log))
       = Some (log @ [DeleteSecret (p @ ascii ''/secrets/'' @ i)]) \<and>
     issued (call_content (makeSecrets \<lparr>parent = p, client = traced c, secretId = i\<rparr>)
               ''addVersion'' content (\<sigma>, log))
       = Some (log @ [AddSecretVersion (p @ ascii ''/secrets/'' @ i)
                        \<lparr>data = Some (Buffer_from_utf8 content)\<rparr>]) \<and>
     issued (call_version (makeSecrets \<lparr>parent = p, client = traced c, secretId = i\<rparr>)
               ''access'' (Some (Integer n)) (\<sigma>, log))
       = Some (log @ [AccessSecretVersion
                        (p @ ascii ''/secrets/'' @ i @ ascii ''/versions/'' @ decimal n)]) \<and>
     issued (call_version (makeSecrets \<lparr>parent = p, client = traced c, secretId = i\<rparr>)
               ''access'' None (\<sigma>, log))
       = Some (log @ [AccessSecretVersion
                        (p @ ascii ''/secrets/'' @ i @ ascii ''/versions/'' @ ascii ''latest'')])"
  using assms
  by (simp add: call_get call_delete call_addVersion call_access getSecret_traced
        deleteSecret_traced addNewVersion_traced access_traced issued_Some
        toString_or_Some toString_or_None safe_Integer_toString)

theorem resource_names_witness:
  "ascii ''projects/p'' \<noteq> [] \<and> ascii ''s'' \<noteq> [] \<and> Number_isSafeInteger (Integer 12) \<and>
   issued (call (makeSecrets \<lparr>parent = ascii ''projects/p'', client = traced service,
                   secretId = ascii ''s''\<rparr>) ''get'' (empty_store, []))
     = Some [GetSecret (ascii ''projects/p/secrets/s'')] \<and>
   issued (call (makeSecrets \<lparr>parent = ascii ''projects/p'', client = traced service,
                   secretId = ascii ''s''\<rparr>) ''delete'' (empty_store, []))
     = Some [DeleteSecret (ascii ''projects/p/secrets/s'')] \<and>
   issued (call_content (makeSecrets \<lparr>parent = ascii ''projects/p'', client = traced service,
                   secretId = ascii ''s''\<rparr>) ''addVersion'' (ascii ''hello'') (empty_store, []))
     = Some [AddSecretVersion (ascii ''projects/p/secrets/s'')
               \<lparr>data = Some [104, 101, 108, 108, 111]\<rparr>] \<and>
   issued (call_version (makeSecrets \<lparr>parent = ascii ''projects/p'', client = traced service,
                   secretId = ascii ''s''\<rparr>) ''access'' (Some (Integer 12)) (empty_store, []))
     = Some [AccessSecretVersion (ascii ''projects/p/secrets/s/versions/12'')] \<and>
   issued (call_version (makeSecrets \<lparr>parent = ascii ''projects/p'', client = traced service,
                   secretId = ascii ''s''\<rparr>) ''access'' None (empty_store, []))
     = Some [AccessSecretVersion (ascii ''projects/p/secrets/s/versions/latest'')]"
proof -
  have a: "ascii ''projects/p'' \<noteq> []" and b: "ascii ''s'' \<noteq> []"
    by (simp_all add: ascii_def)
  have c: "Number_isSafeInteger (Integer 12)" by (simp add: safe_Integer)
  have d: "decimal 12 = ascii ''12''"
    by (simp add: decimal_def nat_digits.simps digit_def ascii_def)
  have e: "Buffer_from_utf8 (ascii ''hello'') = [104, 101, 108, 108, 111]"
    by (simp add: ascii_def Buffer_from_utf8_def utf8_bytes_def lone_def is_high_def is_low_def)
  show ?thesis
    using resource_names [OF a b c, of service empty_store "[]" "ascii ''hello''"] a b c
    by (simp add: d e ascii_append [symmetric])
qed

text \<open>
  C5 as stated: \<open>addVersion("hello")\<close> followed by \<open>access()\<close> returns \<open>"hello"\<close>, and in
  general \<open>access()\<close> returns the string last passed to \<open>addVersion\<close>. The general part
  fails for a string with an unpaired surrogate: the payload carries U+FFFD in its place,
  and that is what comes back.
\<close>

theorem round_trip_of_lone_surrogate:
  "round_trip (makeSecrets \<lparr>parent = ascii ''projects/p'', client = service,
                  secretId = ascii ''s''\<rparr>) [0xD800] empty_store
     = Some (Inr (String [0xFFFD])) \<and>
   round_trip (makeSecrets \<lparr>parent = ascii ''projects/p'', client = service,
                  secretId = ascii ''s''\<rparr>) [0xD800] empty_store
     \<noteq> Some (Inr (String [0xD800]))"
  by (simp add: service_round_trip Buffer_toString_def Buffer_from_utf8_def lone_def
        is_high_def is_low_def utf8_bytes_def utf8_step_def continuation_def utf16_units_def)

text \<open>
  C5 as amended. Against the service that keeps what it is given, on every handle and
  from every state of the store: \<open>addVersion(content)\<close> followed by \<open>access()\<close> returns
  \<open>content\<close> whenever \<open>content\<close> is well formed, that is, has no unpaired surrogate. The
  string \<open>"hello"\<close> is well formed.
\<close>

theorem round_trip_of_well_formed:
  assumes "well_formed content"
  shows "round_trip (makeSecrets \<lparr>parent = p, client = service, secretId = i\<rparr>) content \<sigma>
           = Some (Inr (String content))"
  using assms by (simp add: service_round_trip utf8_round_trip)

theorem round_trip_hello:
  "well_formed (ascii ''hello'') \<and>
   round_trip (makeSecrets \<lparr>parent = ascii ''projects/p'', client = service,
                  secretId = ascii ''s''\<rparr>) (ascii ''hello'') empty_store
     = Some (Inr (String (ascii ''hello'')))"
proof -
  have w: "well_formed (ascii ''hello'')"
    by (simp add: ascii_def is_high_def is_low_def)
  show ?thesis
    using round_trip_of_well_formed [OF w, of "ascii ''projects/p''" "ascii ''s''" empty_store] w
    by simp
qed

text \<open>
  C6. For every handle, every version argument and every client, in both modules: when
  the client resolves \<open>accessSecretVersion\<close> and the response carries no payload data
  (no response object, no payload, or no data), \<open>access\<close> resolves with \<open>null\<close>; when
  the response carries data, \<open>access\<close> resolves with the data decoded as a string.
\<close>

theorem access_payload:
  assumes "c (AccessSecretVersion
                (p @ ascii ''/secrets/'' @ i @ ascii ''/versions/''
                   @ toString_or version (ascii ''latest''))) \<sigma> = (Inr response, \<sigma>')"
  shows
    "(response = [] \<or> first response = Undefined \<or> first response = Null
        \<or> (\<exists>r. first response = AccessResponse r \<and> payload r = None)
        \<or> (\<exists>r pl. first response = AccessResponse r \<and> payload r = Some pl \<and> data pl = None)
      \<longrightarrow> call_version (makeSecrets \<lparr>parent = p, client = c, secretId = i\<rparr>)
            ''access'' version \<sigma> = Some (Inr Null, \<sigma>')
          \<and> call_version (output_makeSecrets \<lparr>parent = p, client = c, secretId = i\<rparr>)
            ''access'' version \<sigma> = Some (Inr Null, \<sigma>')) \<and>
     (\<forall>r pl d. first response = AccessResponse r \<and> payload r = Some pl \<and> data pl = Some d
      \<longrightarrow> call_version (makeSecrets \<lparr>parent = p, client = c, secretId = i\<rparr>)
            ''access'' version \<sigma> = Some (Inr (String (Buffer_toString d)), \<sigma>')
          \<and> call_version (output_makeSecrets \<lparr>parent = p, client = c, secretId = i\<rparr>)
            ''access'' version \<sigma> = Some (Inr (String (Buffer_toString d)), \<sigma>'))"
  using assms
  by (auto simp add: call_access call_output_access output_access_eq access_def
        payload_text_def)

theorem access_payload_witness:
  "settled (call_version (makeSecrets \<lparr>parent = ascii ''projects/p'',
               client = (answering [AccessResponse \<lparr>name = None, payload = None\<rparr>]
                          :: (unit, service_error, descriptor) client),
               secretId = ascii ''s''\<rparr>) ''access'' (Some (Integer 3)) ())
     = Some (Inr Null) \<and>
   settled (call_version (makeSecrets \<lparr>parent = ascii ''projects/p'',
               client = (answering [AccessResponse \<lparr>name = None,
                             payload = Some \<lparr>data = Some [104, 105]\<rparr>\<rparr>]
                          :: (unit, service_error, descriptor) client),
               secretId = ascii ''s''\<rparr>) ''access'' None ())
     = Some (Inr (String (ascii ''hi'')))"
proof -
  have d: "Buffer_toString [104, 105] = ascii ''hi''"
    by (simp add: Buffer_toString_def utf8_step_def utf16_units_def ascii_def)
  have a: "(answering [AccessResponse \<lparr>name = None, payload = None\<rparr>]
              :: (unit, service_error, descriptor) client)
             (AccessSecretVersion (ascii ''projects/p'' @ ascii ''/secrets/'' @ ascii ''s''
                @ ascii ''/versions/'' @ toString_or (Some (Integer 3)) (ascii ''latest''))) ()
           = (Inr [AccessResponse \<lparr>name = None, payload = None\<rparr>], ())"
    by (simp add: answering_def)
  have b: "(answering [AccessResponse \<lparr>name = None, payload = Some \<lparr>data = Some [104, 105]\<rparr>\<rparr>]
              :: (unit, service_error, descriptor) client)
             (AccessSecretVersion (ascii ''projects/p'' @ ascii ''/secrets/'' @ ascii ''s''
                @ ascii ''/versions/'' @ toString_or None (ascii ''latest''))) ()
           = (Inr [AccessResponse \<lparr>name = None, payload = Some \<lparr>data = Some [104, 105]\<rparr>\<rparr>], ())"
    by (simp add: answering_def)
  show ?thesis
    using
      access_payload [where c = "answering [AccessResponse \<lparr>name = None, payload = None\<rparr>]"
        and p = "ascii ''projects/p''" and i = "ascii ''s''" and version = "Some (Integer 3)"
        and \<sigma> = "()", OF a]
      access_payload [where c = "answering [AccessResponse \<lparr>name = None,
                                   payload = Some \<lparr>data = Some [104, 105]\<rparr>\<rparr>]"
        and p = "ascii ''projects/p''" and i = "ascii ''s''" and version = None
        and \<sigma> = "()", OF b]
    by (simp add: settled_def d)
qed

text \<open>
  C7. For every handle, every content string and every client: \<open>addVersion(content)\<close>
  issues the one request \<open>addSecretVersion\<close> whose payload data is the UTF-8 encoding of
  \<open>content\<close>, and it settles as the client's call does, with the first element of the
  response, the version descriptor.
\<close>

theorem addVersion_sends_utf8_payload:
  "issued (call_content (makeSecrets \<lparr>parent = p, client = traced c, secretId = i\<rparr>)
             ''addVersion'' content (s, log))
     = Some (log @ [AddSecretVersion (p @ ascii ''/secrets/'' @ i)
                      \<lparr>data = Some (Buffer_from_utf8 content)\<rparr>]) \<and>
   call_content (makeSecrets \<lparr>parent = p, client = c, secretId = i\<rparr>)
       ''addVersion'' content \<sigma>
     = Some (map_sum id first
               (fst (c (AddSecretVersion (p @ ascii ''/secrets/'' @ i)
                          \<lparr>data = Some (Buffer_from_utf8 content)\<rparr>) \<sigma>)),
             snd (c (AddSecretVersion (p @ ascii ''/secrets/'' @ i)
                       \<lparr>data = Some (Buffer_from_utf8 content)\<rparr>) \<sigma>))"
proof (intro conjI)
  show "issued (call_content (makeSecrets \<lparr>parent = p, client = traced c, secretId = i\<rparr>)
                  ''addVersion'' content (s, log))
          = Some (log @ [AddSecretVersion (p @ ascii ''/secrets/'' @ i)
                           \<lparr>data = Some (Buffer_from_utf8 content)\<rparr>])"
    by (simp add: call_addVersion addNewVersion_traced issued_Some)
  show "call_content (makeSecrets \<lparr>parent = p, client = c, secretId = i\<rparr>)
            ''addVersion'' content \<sigma>
          = Some (map_sum id first
                    (fst (c (AddSecretVersion (p @ ascii ''/secrets/'' @ i)
                               \<lparr>data = Some (Buffer_from_utf8 content)\<rparr>) \<sigma>)),
                  snd (c (AddSecretVersion (p @ ascii ''/secrets/'' @ i)
                            \<lparr>data = Some (Buffer_from_utf8 content)\<rparr>) \<sigma>))"
    by (simp add: call_addVersion addNewVersion_result)
qed

theorem addVersion_example:
  "issued (call_content (makeSecrets \<lparr>parent = ascii ''projects/p'', client = traced service,
                           secretId = ascii ''s''\<rparr>)
             ''addVersion'' [0x68, 0xE9, 0x20AC, 0xD83D, 0xDE00] (empty_store, []))
     = Some [AddSecretVersion (ascii ''projects/p/secrets/s'')
               \<lparr>data = Some [0x68, 0xC3, 0xA9, 0xE2, 0x82, 0xAC, 0xF0, 0x9F, 0x98, 0x80]\<rparr>] \<and>
   settled (call_content (makeSecrets \<lparr>parent = ascii ''projects/p'', client = service,
                           secretId = ascii ''s''\<rparr>)
             ''addVersion'' [0x68, 0xE9, 0x20AC, 0xD83D, 0xDE00] empty_store)
     = Some (Inr (Message (Named (ascii ''projects/p/secrets/s/versions/1''))))"
proof -
  have e: "Buffer_from_utf8 [0x68, 0xE9, 0x20AC, 0xD83D, 0xDE00]
             = [0x68, 0xC3, 0xA9, 0xE2, 0x82, 0xAC, 0xF0, 0x9F, 0x98, 0x80]"
    by (simp add: Buffer_from_utf8_def utf8_bytes_def lone_def is_high_def is_low_def)
  have d: "decimal 1 = ascii ''1''"
    by (simp add: decimal_def nat_digits.simps digit_def ascii_def)
  show ?thesis
    using addVersion_sends_utf8_payload [of "ascii ''projects/p''" service "ascii ''s''"
        "[0x68, 0xE9, 0x20AC, 0xD83D, 0xDE00]" empty_store "[]" empty_store]
    by (simp add: e d settled_def empty_store_def Let_def ascii_append [symmetric])
qed

text \<open>
  C8. For every handle and every client: \<open>create()\<close> issues the one request
  \<open>createSecret\<close> with the automatic replication policy and settles as the client's call
  does, with the first element of the response, the secret descriptor; and no call of
  any property of the handle issues a request that carries another replication policy.
\<close>

theorem create_sends_automatic_replication:
  "issued (call (makeSecrets \<lparr>parent = p, client = traced c, secretId = i\<rparr>)
             ''create'' (s, log))
     = Some (log @ [CreateSecret p i \<lparr>replication = Automatic\<rparr>]) \<and>
   call (makeSecrets \<lparr>parent = p, client = c, secretId = i\<rparr>) ''create'' \<sigma>
     = Some (map_sum id first (fst (c (CreateSecret p i \<lparr>replication = Automatic\<rparr>) \<sigma>)),
             snd (c (CreateSecret p i \<lparr>replication = Automatic\<rparr>) \<sigma>)) \<and>
   (\<forall>k content version made.
      issued (call (makeSecrets \<lparr>parent = p, client = traced c, secretId = i\<rparr>) k (s, []))
          = Some made
      \<or> issued (call_content (makeSecrets \<lparr>parent = p, client = traced c, secretId = i\<rparr>)
                  k content (s, [])) = Some made
      \<or> issued (call_version (makeSecrets \<lparr>parent = p, client = traced c, secretId = i\<rparr>)
                  k version (s, [])) = Some made
      \<longrightarrow> (\<forall>r \<in> set made. replication_sent r = None \<or> replication_sent r = Some Automatic))"
proof (intro conjI allI impI ballI)
  show "issued (call (makeSecrets \<lparr>parent = p, client = traced c, secretId = i\<rparr>)
                  ''create'' (s, log))
          = Some (log @ [CreateSecret p i \<lparr>replication = Automatic\<rparr>])"
    by (simp add: call_create createSecret_traced issued_Some)
  show "call (makeSecrets \<lparr>parent = p, client = c, secretId = i\<rparr>) ''create'' \<sigma>
          = Some (map_sum id first (fst (c (CreateSecret p i \<lparr>replication = Automatic\<rparr>) \<sigma>)),
                  snd (c (CreateSecret p i \<lparr>replication = Automatic\<rparr>) \<sigma>))"
    by (simp add: call_create createSecret_result)
next
  fix k content version made r
  assume "issued (call (makeSecrets \<lparr>parent = p, client = traced c, secretId = i\<rparr>) k (s, []))
             = Some made
           \<or> issued (call_content (makeSecrets \<lparr>parent = p, client = traced c, secretId = i\<rparr>)
                       k content (s, [])) = Some made
           \<or> issued (call_version (makeSecrets \<lparr>parent = p, client = traced c, secretId = i\<rparr>)
                       k version (s, [])) = Some made"
    and "r \<in> set made"
  then show "replication_sent r = None \<or> replication_sent r = Some Automatic"
    by (rule replication_of_issued)
qed

theorem create_example:
  "issued (call (makeSecrets \<lparr>parent = ascii ''projects/p'',
                   client = traced (answering [Message (Named (ascii ''projects/p/secrets/s''))]
                              :: (unit, service_error, descriptor) client),
                   secretId = ascii ''s''\<rparr>) ''create'' ((), []))
     = Some [CreateSecret (ascii ''projects/p'') (ascii ''s'') \<lparr>replication = Automatic\<rparr>] \<and>
   settled (call (makeSecrets \<lparr>parent = ascii ''projects/p'',
                   client = (answering [Message (Named (ascii ''projects/p/secrets/s''))]
                              :: (unit, service_error, descriptor) client),
                   secretId = ascii ''s''\<rparr>) ''create'' ())
     = Some (Inr (Message (Named (ascii ''projects/p/secrets/s'')))) \<and>
   replication_sent (CreateSecret (ascii ''projects/p'') (ascii ''s'')
                       \<lparr>replication = Automatic\<rparr>) = Some Automatic"
proof -
  note t = create_sends_automatic_replication
    [where p = "ascii ''projects/p''" and i = "ascii ''s''" and s = "()" and \<sigma> = "()"
       and log = "[]"
       and c = "answering [Message (Named (ascii ''projects/p/secrets/s''))]
                  :: (unit, service_error, descriptor) client"]
  have made: "issued (call (makeSecrets \<lparr>parent = ascii ''projects/p'',
                   client = traced (answering [Message (Named (ascii ''projects/p/secrets/s''))]
                              :: (unit, service_error, descriptor) client),
                   secretId = ascii ''s''\<rparr>) ''create'' ((), []))
     = Some [CreateSecret (ascii ''projects/p'') (ascii ''s'') \<lparr>replication = Automatic\<rparr>]"
    using t by simp
  have "\<forall>r \<in> set [CreateSecret (ascii ''projects/p'') (ascii ''s'')
                      \<lparr>replication = Automatic\<rparr>].
          replication_sent r = None \<or> replication_sent r = Some Automatic"
    using t made by blast
  then show ?thesis using t by (simp add: settled_def answering_def)
qed

text \<open>
  C9. For every number \<open>v\<close> given as the version (an integer, zero, a negative value, a
  fraction, a magnitude beyond the safe integers, \<open>NaN\<close> or an infinity), in both
  modules: the version token is \<open>v.toString()\<close>, which is never empty and never
  \<open>latest\<close>, so the one request issued names the version \<open>v.toString()\<close> and not
  \<open>latest\<close>; for a safe integer the token is its decimal notation. Only the omitted
  argument resolves to \<open>latest\<close>.
\<close>

theorem explicit_version_never_latest:
  "toString_or None (ascii ''latest'') = ascii ''latest'' \<and>
   Number_toString v \<noteq> [] \<and>
   toString_or (Some v) (ascii ''latest'') = Number_toString v \<and>
   toString_or (Some v) (ascii ''latest'') \<noteq> ascii ''latest'' \<and>
   issued (call_version (makeSecrets \<lparr>parent = p, client = traced c, secretId = i\<rparr>)
             ''access'' (Some v) (\<sigma>, log))
     = Some (log @ [AccessSecretVersion
                      (p @ ascii ''/secrets/'' @ i @ ascii ''/versions/'' @ Number_toString v)]) \<and>
   issued (call_version (output_makeSecrets \<lparr>parent = p, client = traced c, secretId = i\<rparr>)
             ''access'' (Some v) (\<sigma>, log))
     = Some (log @ [AccessSecretVersion
                      (p @ ascii ''/secrets/'' @ i @ ascii ''/versions/'' @ Number_toString v)]) \<and>
   AccessSecretVersion (p @ ascii ''/secrets/'' @ i @ ascii ''/versions/'' @ Number_toString v)
     \<noteq> AccessSecretVersion (p @ ascii ''/secrets/'' @ i @ ascii ''/versions/'' @ ascii ''latest'') \<and>
   (Number_isSafeInteger (Integer n) \<longrightarrow>
      toString_or (Some (Integer n)) (ascii ''latest'') = decimal n \<and>
      issued (call_version (makeSecrets \<lparr>parent = p, client = traced c, secretId = i\<rparr>)
                ''access'' (Some (Integer n)) (\<sigma>, log))
        = Some (log @ [AccessSecretVersion
                         (p @ ascii ''/secrets/'' @ i @ ascii ''/versions/'' @ decimal n)]) \<and>
      issued (call_version (output_makeSecrets \<lparr>parent = p, client = traced c, secretId = i\<rparr>)
                ''access'' (Some (Integer n)) (\<sigma>, log))
        = Some (log @ [AccessSecretVersion
                         (p @ ascii ''/secrets/'' @ i @ ascii ''/versions/'' @ decimal n)]))"
  by (simp add: toString_or_None toString_or_Some Number_toString_nonempty
        Number_toString_not_latest call_access call_output_access output_access_eq
        access_traced issued_Some safe_Integer_toString)

theorem explicit_version_examples:
  "Number_isSafeInteger (Integer 0) \<and> Number_isSafeInteger (Integer (- 7)) \<and>
   Number_isSafeInteger (Integer 1200) \<and> Number_isSafeInteger (Integer 9007199254740991) \<and>
   toString_or (Some (Integer 0)) (ascii ''latest'') = ascii ''0'' \<and>
   toString_or (Some (Integer (- 7))) (ascii ''latest'') = ascii ''-7'' \<and>
   toString_or (Some (Integer 1200)) (ascii ''latest'') = ascii ''1200'' \<and>
   toString_or (Some (Integer 9007199254740991)) (ascii ''latest'') = ascii ''9007199254740991'' \<and>
   toString_or (Some (Finite False 18446744073709552 20)) (ascii ''latest'')
     = ascii ''18446744073709552000'' \<and>
   toString_or (Some (Finite False 1 22)) (ascii ''latest'') = ascii ''1e+21'' \<and>
   toString_or (Some (Finite False 15 1)) (ascii ''latest'') = ascii ''1.5'' \<and>
   toString_or (Some (Finite True 25 0)) (ascii ''latest'') = ascii ''-0.25'' \<and>
   toString_or (Some (Finite False 1 (- 6))) (ascii ''latest'') = ascii ''1e-7'' \<and>
   toString_or (Some Zero) (ascii ''latest'') = ascii ''0'' \<and>
   toString_or (Some NaN) (ascii ''latest'') = ascii ''NaN'' \<and>
   toString_or (Some NegInfinity) (ascii ''latest'') = ascii ''-Infinity'' \<and>
   issued (call_version (makeSecrets \<lparr>parent = ascii ''projects/p'', client = traced service,
                           secretId = ascii ''s''\<rparr>)
             ''access'' (Some (Integer 1200)) (empty_store, []))
     = Some [AccessSecretVersion (ascii ''projects/p/secrets/s/versions/1200'')] \<and>
   issued (call_version (output_makeSecrets \<lparr>parent = ascii ''projects/p'',
                           client = traced service, secretId = ascii ''s''\<rparr>)
             ''access'' (Some (Finite False 18446744073709552 20)) (empty_store, []))
     = Some [AccessSecretVersion
               (ascii ''projects/p/secrets/s/versions/18446744073709552000'')]"
proof -
  note t = explicit_version_never_latest
    [where p = "ascii ''projects/p''" and i = "ascii ''s''" and c = service
       and \<sigma> = empty_store and log = "[]"]
  have safe: "Number_isSafeInteger (Integer 0)" "Number_isSafeInteger (Integer (- 7))"
    "Number_isSafeInteger (Integer 1200)" "Number_isSafeInteger (Integer 9007199254740991)"
    by (simp_all add: safe_Integer)
  have d: "decimal 0 = ascii ''0''" "decimal (- 7) = ascii ''-7''"
    "decimal 1200 = ascii ''1200''" "decimal 9007199254740991 = ascii ''9007199254740991''"
    by (simp_all add: decimal_def nat_digits.simps digit_def ascii_def)
  have r: "positive_toString 18446744073709552 20 = ascii ''18446744073709552000''"
    "positive_toString (Suc 0) 22 = ascii ''1e+21''"
    "positive_toString 15 1 = ascii ''1.5''"
    "positive_toString 25 0 = ascii ''0.25''"
    "positive_toString (Suc 0) (- 6) = ascii ''1e-7''"
    by (simp_all add: rendering)
  have integers:
    "toString_or (Some (Integer 0)) (ascii ''latest'') = ascii ''0''"
    "toString_or (Some (Integer (- 7))) (ascii ''latest'') = ascii ''-7''"
    "toString_or (Some (Integer 1200)) (ascii ''latest'') = ascii ''1200''"
    "toString_or (Some (Integer 9007199254740991)) (ascii ''latest'')
       = ascii ''9007199254740991''"
    using t [where n = 0 and v = Zero] t [where n = "- 7" and v = Zero]
      t [where n = 1200 and v = Zero] t [where n = 9007199254740991 and v = Zero] safe
    by (simp_all add: d)
  have others:
    "toString_or (Some (Finite False 18446744073709552 20)) (ascii ''latest'')
       = ascii ''18446744073709552000''"
    "toString_or (Some (Finite False 1 22)) (ascii ''latest'') = ascii ''1e+21''"
    "toString_or (Some (Finite False 15 1)) (ascii ''latest'') = ascii ''1.5''"
    "toString_or (Some (Finite True 25 0)) (ascii ''latest'') = ascii ''-0.25''"
    "toString_or (Some (Finite False 1 (- 6))) (ascii ''latest'') = ascii ''1e-7''"
    "toString_or (Some Zero) (ascii ''latest'') = ascii ''0''"
    "toString_or (Some NaN) (ascii ''latest'') = ascii ''NaN''"
    "toString_or (Some NegInfinity) (ascii ''latest'') = ascii ''-Infinity''"
    using t [where n = 0 and v = "Finite False 18446744073709552 20"]
      t [where n = 0 and v = "Finite False 1 22"] t [where n = 0 and v = "Finite False 15 1"]
      t [where n = 0 and v = "Finite True 25 0"] t [where n = 0 and v = "Finite False 1 (- 6)"]
      t [where n = 0 and v = Zero] t [where n = 0 and v = NaN]
      t [where n = 0 and v = NegInfinity]
    by (simp_all add: r ascii_append [symmetric])
  have requests:
    "issued (call_version (makeSecrets \<lparr>parent = ascii ''projects/p'',
                             client = traced service, secretId = ascii ''s''\<rparr>)
               ''access'' (Some (Integer 1200)) (empty_store, []))
       = Some [AccessSecretVersion (ascii ''projects/p/secrets/s/versions/1200'')]"
    "issued (call_version (output_makeSecrets \<lparr>parent = ascii ''projects/p'',
                             client = traced service, secretId = ascii ''s''\<rparr>)
               ''access'' (Some (Finite False 18446744073709552 20)) (empty_store, []))
       = Some [AccessSecretVersion
                 (ascii ''projects/p/secrets/s/versions/18446744073709552000'')]"
    using t [where n = 1200 and v = Zero]
      t [where n = 0 and v = "Finite False 18446744073709552 20"] safe
    by (simp_all add: d r ascii_append [symmetric])
  show ?thesis using safe integers others requests by simp
qed

text \<open>
  C10. The handle of the compiled module has exactly the properties \<open>create\<close>, \<open>get\<close>,
  \<open>delete\<close>, \<open>addVersion\<close> and \<open>access\<close>; it has no \<open>accessOnlyLatest\<close>, and the module
  exports none. The handle of the TypeScript module has \<open>accessOnlyLatest\<close> besides, and
  that module exports the function. Under every other property name the two handles hold
  the same function.
\<close>

theorem compiled_handle:
  "map fst (output_makeSecrets input) = [''create'', ''get'', ''delete'', ''addVersion'', ''access''] \<and>
   map fst (makeSecrets input)
     = [''create'', ''get'', ''delete'', ''addVersion'', ''access'', ''accessOnlyLatest''] \<and>
   map_of (output_makeSecrets input) ''accessOnlyLatest'' = None \<and>
   call (output_makeSecrets input) ''accessOnlyLatest'' \<sigma> = None \<and>
   call (makeSecrets input) ''accessOnlyLatest'' \<sigma> \<noteq> None \<and>
   ''accessOnlyLatest'' \<notin> set output_exports \<and>
   ''accessOnlyLatest'' \<in> set exports \<and>
   (\<forall>k. k \<noteq> ''accessOnlyLatest'' \<longrightarrow>
      map_of (output_makeSecrets input) k = map_of (makeSecrets input) k)"
  by (simp add: output_makeSecrets_def makeSecrets_def Let_def call_def output_exports_def
        exports_def output_createSecret_eq output_getSecret_eq output_deleteSecret_eq
        output_addNewVersion_eq output_access_eq)

theorem compiled_handle_example:
  "''get'' \<noteq> ''accessOnlyLatest'' \<and>
   map_of (output_makeSecrets \<lparr>parent = ascii ''projects/p'',
             client = (answering acknowledged :: (unit, service_error, descriptor) client),
             secretId = ascii ''s''\<rparr>) ''get''
     = map_of (makeSecrets \<lparr>parent = ascii ''projects/p'',
                 client = (answering acknowledged :: (unit, service_error, descriptor) client),
                 secretId = ascii ''s''\<rparr>) ''get'' \<and>
   settled (call (output_makeSecrets \<lparr>parent = ascii ''projects/p'',
             client = (answering acknowledged :: (unit, service_error, descriptor) client),
             secretId = ascii ''s''\<rparr>) ''get'' ())
     = Some (Inr (Message Empty)) \<and>
   settled (call (output_makeSecrets \<lparr>parent = ascii ''projects/p'',
             client = (answering acknowledged :: (unit, service_error, descriptor) client),
             secretId = ascii ''s''\<rparr>) ''accessOnlyLatest'' ())
     = None"
proof -
  let ?input = "\<lparr>parent = ascii ''projects/p'',
             client = (answering acknowledged :: (unit, service_error, descriptor) client),
             secretId = ascii ''s''\<rparr>"
  have k: "''get'' \<noteq> ''accessOnlyLatest''" by simp
  note t = compiled_handle [where input = ?input and \<sigma> = "()"]
  from t have "\<forall>k. k \<noteq> ''accessOnlyLatest'' \<longrightarrow>
                 map_of (output_makeSecrets ?input) k = map_of (makeSecrets ?input) k"
    by (elim conjE)
  from this [rule_format, OF k] show ?thesis using t
    by (simp add: call_def settled_def makeSecrets_def Let_def getSecret_def answering_def
          acknowledged_def)
qed

end
